theory Spec2Isabelle
  imports Complex_Main
begin

section \<open>JavaScript numbers\<close>

text \<open>
  The program computes with JavaScript numbers, which are IEEE 754 binary64 values. A
  number is a finite value \<open>Fin x\<close>, where \<open>Fin 0\<close> is the zero with sign plus,
  the zero with sign minus, one of the two infinities, or NaN. Every operation on finite
  numbers computes the exact real result and rounds it to the nearest double, ties
  to the even mantissa; it overflows to an infinity and underflows to a zero.
\<close>

datatype jsnum = Fin real | NegZero | PInf | NInf | NaN

text \<open>
  The binade of a positive real \<open>x\<close> is the power of two \<open>2\<^sup>k \<le> x < 2\<^sup>k\<^sup>+\<^sup>1\<close>, with
  \<open>k\<close> kept between -1022 (below it the numbers are subnormal) and 1023. It is
  searched upwards from 1 or downwards from 1/2.
\<close>

primrec binadeUp :: "real \<Rightarrow> real \<Rightarrow> nat \<Rightarrow> real" where
  "binadeUp x u 0 = u"
| "binadeUp x u (Suc n) = (if x < 2 * u then u else binadeUp x (2 * u) n)"

primrec binadeDown :: "real \<Rightarrow> real \<Rightarrow> nat \<Rightarrow> real" where
  "binadeDown x u 0 = u"
| "binadeDown x u (Suc n) = (if u \<le> x then u else binadeDown x (u / 2) n)"

definition binade :: "real \<Rightarrow> real" where
  "binade x = (if 1 \<le> x then binadeUp x 1 1023 else binadeDown x (1 / 2) 1021)"

text \<open>The distance of neighbouring doubles around \<open>x\<close>: 52 bits below the binade.\<close>

definition ulp :: "real \<Rightarrow> real" where
  "ulp x = binade \<bar>x\<bar> / 2 ^ 52"

text \<open>Rounding to the nearest integer, a tie to the even one.\<close>

definition rhe :: "real \<Rightarrow> int" where
  "rhe q = (let f = \<lfloor>q\<rfloor>; r = q - of_int f
            in if r < 1 / 2 then f else if 1 / 2 < r then f + 1
               else if even f then f else f + 1)"

text \<open>
  The double nearest to a real: the nearest multiple of the ulp, an infinity from
  \<open>2\<^sup>1\<^sup>0\<^sup>2\<^sup>4\<close> on, and a zero with the sign of \<open>x\<close> when the multiple is 0.
\<close>

definition round64 :: "real \<Rightarrow> jsnum" where
  "round64 x =
     (if x = 0 then Fin 0
      else (let v = of_int (rhe (x / ulp x)) * ulp x
            in if 2 ^ 1024 \<le> \<bar>v\<bar> then (if 0 < x then PInf else NInf)
               else if v = 0 then (if x < 0 then NegZero else Fin 0)
               else Fin v))"

text \<open>The reals that are doubles. The candles of a series hold such values.\<close>

definition isDouble :: "real \<Rightarrow> bool" where
  "isDouble x = (round64 x = Fin x)"

text \<open>The value, the finiteness and the sign bit of a number.\<close>

fun jval :: "jsnum \<Rightarrow> real" where
  "jval (Fin x) = x"
| "jval _ = 0"

fun jfinite :: "jsnum \<Rightarrow> bool" where
  "jfinite (Fin _) = True"
| "jfinite NegZero = True"
| "jfinite _ = False"

fun jnegative :: "jsnum \<Rightarrow> bool" where
  "jnegative (Fin x) = (x < 0)"
| "jnegative NegZero = True"
| "jnegative NInf = True"
| "jnegative _ = False"

definition zeroOf :: "bool \<Rightarrow> jsnum" where
  "zeroOf s = (if s then NegZero else Fin 0)"

definition infOf :: "bool \<Rightarrow> jsnum" where
  "infOf s = (if s then NInf else PInf)"

fun jneg :: "jsnum \<Rightarrow> jsnum" where
  "jneg (Fin x) = (if x = 0 then NegZero else Fin (- x))"
| "jneg NegZero = Fin 0"
| "jneg PInf = NInf"
| "jneg NInf = PInf"
| "jneg NaN = NaN"

fun jabs :: "jsnum \<Rightarrow> jsnum" where
  "jabs (Fin x) = Fin \<bar>x\<bar>"
| "jabs NegZero = Fin 0"
| "jabs PInf = PInf"
| "jabs NInf = PInf"
| "jabs NaN = NaN"

text \<open>
  Addition. An exact sum of zero is the zero with sign plus, except that the sum of two
  zeros with sign minus has sign minus.
\<close>

fun jadd :: "jsnum \<Rightarrow> jsnum \<Rightarrow> jsnum" where
  "jadd NaN _ = NaN"
| "jadd _ NaN = NaN"
| "jadd PInf NInf = NaN"
| "jadd NInf PInf = NaN"
| "jadd PInf _ = PInf"
| "jadd _ PInf = PInf"
| "jadd NInf _ = NInf"
| "jadd _ NInf = NInf"
| "jadd NegZero NegZero = NegZero"
| "jadd a b = (let r = jval a + jval b in if r = 0 then Fin 0 else round64 r)"

definition jsub :: "jsnum \<Rightarrow> jsnum \<Rightarrow> jsnum" where
  "jsub a b = jadd a (jneg b)"

text \<open>
  Multiplication and division. The sign of a zero or infinite result is the exclusive or
  of the signs of the operands; a finite number divided by a zero is an infinity, and
  zero by zero is NaN.
\<close>

fun jmul :: "jsnum \<Rightarrow> jsnum \<Rightarrow> jsnum" where
  "jmul NaN _ = NaN"
| "jmul _ NaN = NaN"
| "jmul a b =
     (if jfinite a \<and> jfinite b then
        (let r = jval a * jval b
         in if r = 0 then zeroOf (jnegative a \<noteq> jnegative b) else round64 r)
      else if (jfinite a \<and> jval a = 0) \<or> (jfinite b \<and> jval b = 0) then NaN
      else infOf (jnegative a \<noteq> jnegative b))"

fun jdiv :: "jsnum \<Rightarrow> jsnum \<Rightarrow> jsnum" where
  "jdiv NaN _ = NaN"
| "jdiv _ NaN = NaN"
| "jdiv a b =
     (if jfinite a then
        (if jfinite b then
           (if jval b = 0 then
              (if jval a = 0 then NaN else infOf (jnegative a \<noteq> jnegative b))
            else
              (let r = jval a / jval b
               in if r = 0 then zeroOf (jnegative a \<noteq> jnegative b) else round64 r))
         else zeroOf (jnegative a \<noteq> jnegative b))
      else if jfinite b then infOf (jnegative a \<noteq> jnegative b)
      else NaN)"

text \<open>Comparisons: every comparison with NaN is false, and the two zeros are equal.\<close>

fun jlt :: "jsnum \<Rightarrow> jsnum \<Rightarrow> bool" where
  "jlt NaN _ = False"
| "jlt _ NaN = False"
| "jlt _ NInf = False"
| "jlt PInf _ = False"
| "jlt NInf _ = True"
| "jlt _ PInf = True"
| "jlt a b = (jval a < jval b)"

fun jle :: "jsnum \<Rightarrow> jsnum \<Rightarrow> bool" where
  "jle NaN _ = False"
| "jle _ NaN = False"
| "jle NInf _ = True"
| "jle _ PInf = True"
| "jle _ NInf = False"
| "jle PInf _ = False"
| "jle a b = (jval a \<le> jval b)"

definition jgt :: "jsnum \<Rightarrow> jsnum \<Rightarrow> bool" where
  "jgt a b = jlt b a"

definition jge :: "jsnum \<Rightarrow> jsnum \<Rightarrow> bool" where
  "jge a b = jle b a"

text \<open>The equality \<open>===\<close> of two numbers: NaN is not equal to itself.\<close>

definition jeq :: "jsnum \<Rightarrow> jsnum \<Rightarrow> bool" where
  "jeq a b = (jle a b \<and> jle b a)"

text \<open>Truthiness of a number, as \<open>x || 0\<close> tests it: the zeros and NaN are falsy.\<close>

fun truthy :: "jsnum \<Rightarrow> bool" where
  "truthy (Fin x) = (x \<noteq> 0)"
| "truthy NegZero = False"
| "truthy NaN = False"
| "truthy _ = True"

text \<open>The sum of a list of numbers, added from 0 on from left to right.\<close>

definition jsum :: "jsnum list \<Rightarrow> jsnum" where
  "jsum xs = foldl jadd (Fin 0) xs"

text \<open>
  The numbers that are not negative: \<open>+0\<close>, the positive numbers and \<open>+Infinity\<close>.
\<close>

fun jnonneg :: "jsnum \<Rightarrow> bool" where
  "jnonneg (Fin v) = (0 \<le> v)"
| "jnonneg PInf = True"
| "jnonneg _ = False"

text \<open>
  The values a JavaScript number can have: \<open>Fin x\<close> is one only when \<open>x\<close> is a
  double.
\<close>

fun isNumber :: "jsnum \<Rightarrow> bool" where
  "isNumber (Fin x) = isDouble x"
| "isNumber _ = True"


section \<open>The backtester\<close>

text \<open>
  The backtest of the spike strategy: \<open>detectPriceSpikes\<close> goes through the candles
  of one symbol and calls \<open>executeTrade\<close> at every spike. Fetching the candles and the
  console output are left out, and so is the parameter \<open>symbol\<close>, which is only
  printed.
\<close>

subsection \<open>Data\<close>

text \<open>The interface \<open>OHLCV\<close>. The field \<open>open\<close> is named \<open>open'\<close> here.\<close>

record ohlcv =
  timestamp :: jsnum
  open' :: jsnum
  high :: jsnum
  low :: jsnum
  close :: jsnum
  volume :: jsnum

text \<open>
  The exceptions the code can raise: reading a field of \<open>undefined\<close> (an index
  outside the array) is a TypeError, and \<open>toISOString\<close> of an invalid date is a
  RangeError. There is no other error in the program.
\<close>

datatype js_error = TypeError | RangeError

text \<open>
  The month key \<open>new Date(t).toISOString().slice(0, 7)\<close> is a library function and
  is a parameter \<open>isoMonth\<close> of the model: \<open>isoMonth t\<close> is \<open>None\<close> where
  \<open>toISOString\<close> throws.
\<close>

type_synonym iso_month = "jsnum \<Rightarrow> string option"

type_synonym monthly = "string \<rightharpoonup> jsnum"

text \<open>The object \<open>{ balance, profit }\<close> that \<open>executeTrade\<close> returns.\<close>

record trade_result =
  balance :: jsnum
  profit :: jsnum

text \<open>
  How a trade ended, which is the line \<open>executeTrade\<close> writes to the console:
  take profit or stop loss at a candle index, or closed at the end of the data.
\<close>

datatype exit_event = TakeProfit nat | StopLoss nat | EndOfData

text \<open>
  The constants of the backtester. The literal \<open>0.01\<close> is the double nearest to
  1/100.
\<close>

definition initialBalance :: jsnum where
  "initialBalance = Fin 1000"

definition threshold :: jsnum where
  "threshold = round64 (1 / 100)"

subsection \<open>\<open>executeTrade\<close>\<close>

text \<open>\<open>monthlyProfit[month] || 0\<close>: a missing, zero or NaN entry reads as 0.\<close>

definition monthOrZero :: "monthly \<Rightarrow> string \<Rightarrow> jsnum" where
  "monthOrZero monthlyProfit month =
     (case monthlyProfit month of
        None \<Rightarrow> Fin 0
      | Some v \<Rightarrow> (if truthy v then v else Fin 0))"

definition targetPrice :: "bool \<Rightarrow> jsnum \<Rightarrow> jsnum \<Rightarrow> jsnum" where
  "targetPrice isShort entryPrice change =
     (if isShort then jsub entryPrice (jmul (jdiv change (Fin 2)) entryPrice)
      else jadd entryPrice (jmul (jdiv change (Fin 2)) entryPrice))"

definition stopLossPrice :: "bool \<Rightarrow> jsnum \<Rightarrow> jsnum \<Rightarrow> jsnum" where
  "stopLossPrice isShort entryPrice change =
     (if isShort then jadd entryPrice (jmul change entryPrice)
      else jsub entryPrice (jmul change entryPrice))"

text \<open>
  The forward scan \<open>for (let i = index + 1; i < data.length; i++)\<close>. It returns
  \<open>None\<close> when it runs to the end of the data with the position still open, and
  otherwise the result, the updated \<open>monthlyProfit\<close> and the exit.
\<close>

function scanTrade ::
  "iso_month \<Rightarrow> ohlcv list \<Rightarrow> bool \<Rightarrow> jsnum \<Rightarrow> jsnum \<Rightarrow> jsnum \<Rightarrow> jsnum \<Rightarrow> monthly \<Rightarrow> nat
     \<Rightarrow> js_error + (trade_result \<times> monthly \<times> exit_event) option" where
  "scanTrade isoMonth data isShort entryPrice target stopLoss currentBalance monthlyProfit i =
     (if i < length data then
        (let currentPrice = (if isShort then low (data ! i) else high (data ! i)) in
         case isoMonth (timestamp (data ! i)) of
           None \<Rightarrow> Inl RangeError
         | Some month \<Rightarrow>
             if isShort \<and> jle currentPrice target then
               (let profit = jmul (jdiv (jsub entryPrice currentPrice) entryPrice) currentBalance in
                Inr (Some (\<lparr>balance = jadd currentBalance profit, profit = profit\<rparr>,
                           monthlyProfit(month \<mapsto> jadd (monthOrZero monthlyProfit month) profit),
                           TakeProfit i)))
             else if \<not> isShort \<and> jge currentPrice target then
               (let profit = jmul (jdiv (jsub currentPrice entryPrice) entryPrice) currentBalance in
                Inr (Some (\<lparr>balance = jadd currentBalance profit, profit = profit\<rparr>,
                           monthlyProfit(month \<mapsto> jadd (monthOrZero monthlyProfit month) profit),
                           TakeProfit i)))
             else if (isShort \<and> jge currentPrice stopLoss) \<or> (\<not> isShort \<and> jle currentPrice stopLoss) then
               (let profit = jabs (jmul (jdiv (jsub currentPrice entryPrice) entryPrice) currentBalance) in
                Inr (Some (\<lparr>balance = jsub currentBalance profit, profit = jneg profit\<rparr>,
                           monthlyProfit(month \<mapsto> jsub (monthOrZero monthlyProfit month) profit),
                           StopLoss i)))
             else scanTrade isoMonth data isShort entryPrice target stopLoss currentBalance monthlyProfit (Suc i))
      else Inr None)"
  by pat_completeness auto
termination
  by (relation "measure (\<lambda>(isoMonth, data, isShort, entryPrice, target, stopLoss, currentBalance, monthlyProfit, i). length data - i)") auto

text \<open>The close at the end of the data, \<open>if (positionOpened) { ... }\<close>.\<close>

definition closeAtEnd ::
  "iso_month \<Rightarrow> ohlcv list \<Rightarrow> bool \<Rightarrow> jsnum \<Rightarrow> jsnum \<Rightarrow> monthly
     \<Rightarrow> js_error + (trade_result \<times> monthly \<times> exit_event)" where
  "closeAtEnd isoMonth data isShort entryPrice currentBalance monthlyProfit =
     (let lastPrice = close (data ! (length data - 1));
          lastChange = jmul (jdiv (jsub lastPrice entryPrice) entryPrice) currentBalance;
          profit = (if isShort then jneg lastChange else lastChange)
      in case isoMonth (timestamp (data ! (length data - 1))) of
           None \<Rightarrow> Inl RangeError
         | Some month \<Rightarrow>
             Inr (\<lparr>balance = jadd currentBalance profit, profit = profit\<rparr>,
                  monthlyProfit(month \<mapsto> jadd (monthOrZero monthlyProfit month) profit),
                  EndOfData))"

text \<open>
  \<open>executeTrade(data, index, change, isShort, currentBalance, monthlyProfit)\<close>.
  The object \<open>monthlyProfit\<close> is updated in place by the code and is returned here
  beside the result. With \<open>index\<close> outside the array, \<open>data[index].close\<close>
  raises.
\<close>

definition executeTrade ::
  "iso_month \<Rightarrow> ohlcv list \<Rightarrow> nat \<Rightarrow> jsnum \<Rightarrow> bool \<Rightarrow> jsnum \<Rightarrow> monthly
     \<Rightarrow> js_error + (trade_result \<times> monthly \<times> exit_event)" where
  "executeTrade isoMonth data index change isShort currentBalance monthlyProfit =
     (if length data \<le> index then Inl TypeError
      else
        (let entryPrice = close (data ! index);
             change = jabs change;
             target = targetPrice isShort entryPrice change;
             stopLoss = stopLossPrice isShort entryPrice change
         in case scanTrade isoMonth data isShort entryPrice target stopLoss currentBalance monthlyProfit (index + 1) of
              Inl e \<Rightarrow> Inl e
            | Inr (Some r) \<Rightarrow> Inr r
            | Inr None \<Rightarrow> closeAtEnd isoMonth data isShort entryPrice currentBalance monthlyProfit))"

subsection \<open>\<open>detectPriceSpikes\<close>\<close>

text \<open>
  The local variables of \<open>detectPriceSpikes\<close>. The field \<open>history\<close> is not a
  variable of the code: it lists the calls of \<open>executeTrade\<close> so far, each with its
  index, its direction, the returned object and the exit, and is only there to state
  properties of a run.
\<close>

record ledger =
  currentBalance :: jsnum
  totalTrades :: nat
  winningTrades :: nat
  losingTrades :: nat
  monthlyProfit :: monthly
  history :: "(nat \<times> bool \<times> trade_result \<times> exit_event) list"

definition priceChange :: "ohlcv list \<Rightarrow> nat \<Rightarrow> jsnum" where
  "priceChange data i =
     (let previousPrice = close (data ! (i - 1));
          currentPrice = close (data ! i)
      in jdiv (jsub currentPrice previousPrice) previousPrice)"

text \<open>Lines 61 to 67: the balance and the counters after a trade.\<close>

definition recordOutcome :: "ledger \<Rightarrow> trade_result \<Rightarrow> ledger" where
  "recordOutcome st result =
     (if jgt (profit result) (Fin 0)
      then st\<lparr>currentBalance := balance result, totalTrades := totalTrades st + 1,
              winningTrades := winningTrades st + 1\<rparr>
      else st\<lparr>currentBalance := balance result, totalTrades := totalTrades st + 1,
              losingTrades := losingTrades st + 1\<rparr>)"

text \<open>The body of the loop at index \<open>i\<close>, with threshold \<open>thr\<close>.\<close>

definition spikeStep :: "iso_month \<Rightarrow> jsnum \<Rightarrow> ohlcv list \<Rightarrow> nat \<Rightarrow> ledger \<Rightarrow> js_error + ledger" where
  "spikeStep isoMonth thr data i st =
     (if i = 0 \<or> length data \<le> i then Inl TypeError
      else
        (let change = priceChange data i in
         if jgt (jabs change) thr then
           (let isShort = jgt change (Fin 0) in
            case executeTrade isoMonth data i change isShort (currentBalance st) (monthlyProfit st) of
              Inl e \<Rightarrow> Inl e
            | Inr (result, monthlyProfit', ev) \<Rightarrow>
                Inr ((recordOutcome st result)
                       \<lparr>monthlyProfit := monthlyProfit',
                        history := history st @ [(i, isShort, result, ev)]\<rparr>))
         else Inr st))"

text \<open>
  The loop \<open>for (let i = 1; i < data.length; i++)\<close>, with its bound as a parameter
  \<open>n\<close>: the code runs it with \<open>n = data.length\<close>, and a smaller \<open>n\<close> gives
  the state the code is in when \<open>i\<close> reaches \<open>n\<close>.
\<close>

function spikesLoop ::
  "iso_month \<Rightarrow> jsnum \<Rightarrow> ohlcv list \<Rightarrow> nat \<Rightarrow> nat \<Rightarrow> ledger \<Rightarrow> js_error + ledger" where
  "spikesLoop isoMonth thr data n i st =
     (if i < n then
        (case spikeStep isoMonth thr data i st of
           Inl e \<Rightarrow> Inl e
         | Inr st' \<Rightarrow> spikesLoop isoMonth thr data n (Suc i) st')
      else Inr st)"
  by pat_completeness auto
termination
  by (relation "measure (\<lambda>(isoMonth, thr, data, n, i, st). n - i)") auto

definition initialLedger :: "jsnum \<Rightarrow> ledger" where
  "initialLedger b =
     \<lparr>currentBalance = b, totalTrades = 0, winningTrades = 0, losingTrades = 0,
      monthlyProfit = Map.empty, history = []\<rparr>"

text \<open>
  A run with a given threshold and initial balance, up to the loop bound \<open>n\<close>, and
  the whole run. The summary that the code prints is read off the final ledger.
\<close>

definition runUpTo :: "iso_month \<Rightarrow> jsnum \<Rightarrow> jsnum \<Rightarrow> ohlcv list \<Rightarrow> nat \<Rightarrow> js_error + ledger" where
  "runUpTo isoMonth thr b data n = spikesLoop isoMonth thr data n 1 (initialLedger b)"

definition run :: "iso_month \<Rightarrow> jsnum \<Rightarrow> jsnum \<Rightarrow> ohlcv list \<Rightarrow> js_error + ledger" where
  "run isoMonth thr b data = runUpTo isoMonth thr b data (length data)"

definition detectPriceSpikes :: "iso_month \<Rightarrow> ohlcv list \<Rightarrow> js_error + ledger" where
  "detectPriceSpikes isoMonth data = run isoMonth threshold initialBalance data"

subsection \<open>What a run recorded\<close>

text \<open>
  The test \<open>Math.abs(change) > threshold\<close> of the loop at index \<open>i\<close>, and the
  profits of the trades of a run, in the order the trades were made.
\<close>

definition isSpike :: "jsnum \<Rightarrow> ohlcv list \<Rightarrow> nat \<Rightarrow> bool" where
  "isSpike thr data i = jgt (jabs (priceChange data i)) thr"

definition recordedProfits :: "ledger \<Rightarrow> jsnum list" where
  "recordedProfits st = map (\<lambda>(i, isShort, r, ev). profit r) (history st)"

subsection \<open>The conditions of the forward scan\<close>

text \<open>
  The price \<open>currentPrice\<close> that the scan takes from a candle, and the two
  conditions it tests on it, as \<open>scanTrade\<close> has them.
\<close>

definition touchPrice :: "bool \<Rightarrow> ohlcv \<Rightarrow> jsnum" where
  "touchPrice isShort c = (if isShort then low c else high c)"

definition targetHit :: "bool \<Rightarrow> jsnum \<Rightarrow> ohlcv \<Rightarrow> bool" where
  "targetHit isShort target c =
     ((isShort \<and> jle (touchPrice isShort c) target) \<or> (\<not> isShort \<and> jge (touchPrice isShort c) target))"

definition stopHit :: "bool \<Rightarrow> jsnum \<Rightarrow> ohlcv \<Rightarrow> bool" where
  "stopHit isShort stopLoss c =
     ((isShort \<and> jge (touchPrice isShort c) stopLoss) \<or> (\<not> isShort \<and> jle (touchPrice isShort c) stopLoss))"

subsection \<open>Example series\<close>

text \<open>
  A candle from its timestamp and its open, high, low and close, with volume 1, and
  the time of the \<open>k\<close>-th five-minute candle of 2024.
\<close>

definition candle :: "real \<Rightarrow> real \<Rightarrow> real \<Rightarrow> real \<Rightarrow> real \<Rightarrow> ohlcv" where
  "candle t opn hi lo cl =
     \<lparr>timestamp = Fin t, open' = Fin opn, high = Fin hi, low = Fin lo, close = Fin cl,
      volume = Fin 1\<rparr>"

definition at5m :: "nat \<Rightarrow> real" where
  "at5m k = 1704067200000 + 300000 * real k"

text \<open>
  The month key on the timestamps of January 2024, which is all that the example series
  use. Outside January 2024 it stands for no date.
\<close>

definition january :: iso_month where
  "january t =
     (case t of
        Fin x \<Rightarrow> (if 1704067200000 \<le> x \<and> x < 1706745600000 then Some ''2024-01'' else None)
      | _ \<Rightarrow> None)"

text \<open>Closes 100, 98, 102.\<close>

definition series3 :: "ohlcv list" where
  "series3 =
     [candle (at5m 0) 100 100 100 100,
      candle (at5m 1) 100 100 98 98,
      candle (at5m 2) 98 102 98 102]"

text \<open>
  Closes 100, 98, 96, 99: the trade opened at index 1 is still open when the next one
  is opened at index 2, and both end at index 3.
\<close>

definition overlapping :: "ohlcv list" where
  "overlapping =
     [candle (at5m 0) 100 100 100 100,
      candle (at5m 1) 100 100 98 98,
      candle (at5m 2) 97 97 96 96,
      candle (at5m 3) 96 99 96 99]"

text \<open>Closes 100, 101: a change of exactly the threshold 0.01.\<close>

definition boundary2 :: "ohlcv list" where
  "boundary2 =
     [candle (at5m 0) 100 100 100 100,
      candle (at5m 1) 100 101 100 101]"

text \<open>
  After a fall to 98 (target 98.98, stop 96.04), a candle from 95 to 102; and after a
  rise to 102 (target 100.98, stop 104.04), a candle from 100 to 105. Each spans the
  target and the stop of the trade opened before it.
\<close>

definition spanning :: "ohlcv list" where
  "spanning =
     [candle (at5m 0) 100 100 100 100,
      candle (at5m 1) 100 100 98 98,
      candle (at5m 2) 98 102 95 102]"

definition spanningShort :: "ohlcv list" where
  "spanningShort =
     [candle (at5m 0) 100 100 100 100,
      candle (at5m 1) 100 102 100 102,
      candle (at5m 2) 102 105 100 101]"



text \<open>A previous close of zero, and an entry price of zero.\<close>

definition zeroPrev :: "ohlcv list" where
  "zeroPrev =
     [candle (at5m 0) 0 0 0 0,
      candle (at5m 1) 0 5 0 5]"

definition zeroEntry :: "ohlcv list" where
  "zeroEntry =
     [candle (at5m 0) 5 5 5 5,
      candle (at5m 1) 5 5 0 0]"


text \<open>
  Closes 4, 2, 2: a change of exactly -0.5, with target 2.5 and stop 1 for the entry
  price 2, and a last candle with high 3.
\<close>

definition halving :: "ohlcv list" where
  "halving =
     [candle (at5m 0) 4 4 4 4,
      candle (at5m 1) 4 4 2 2,
      candle (at5m 2) 2 3 2 2]"

text \<open>A previous close of \<open>-0\<close>.\<close>

definition negZeroPrev :: "ohlcv list" where
  "negZeroPrev =
     [(candle (at5m 0) 0 0 0 0)\<lparr>close := NegZero\<rparr>,
      candle (at5m 1) 0 5 0 5]"

section \<open>Properties\<close>

declare scanTrade.simps [simp del] spikesLoop.simps [simp del]

lemma binadeUp_char:
  assumes "u = 2 powi j" "u \<le> x" "j + int n = 1023"
  shows "\<exists>k. binadeUp x u n = 2 powi k \<and> j \<le> k \<and> k \<le> 1023 \<and> 2 powi k \<le> x
             \<and> (k = 1023 \<or> x < 2 powi (k + 1))"
  using assms
proof (induction n arbitrary: u j)
  case 0
  have a: "binadeUp x u 0 = 2 powi j" using "0.prems"(1) by simp
  have b: "2 powi j \<le> x" using "0.prems"(1,2) by simp
  have c: "j = 1023" using "0.prems"(3) by simp
  then have d: "j \<le> 1023" by simp
  from a b c d show ?case by blast
next
  case (Suc n)
  show ?case
  proof (cases "x < 2 * u")
    case True
    with Suc.prems show ?thesis
      by (auto simp: power_int_add_1 intro!: exI [of _ j])
  next
    case False
    have "\<exists>k. binadeUp x (2 * u) n = 2 powi k \<and> j + 1 \<le> k \<and> k \<le> 1023 \<and> 2 powi k \<le> x
             \<and> (k = 1023 \<or> x < 2 powi (k + 1))"
      by (rule Suc.IH) (use Suc.prems False in \<open>auto simp: power_int_add_1\<close>)
    with False show ?thesis
      by auto
  qed
qed

lemma binadeDown_char:
  assumes "u = 2 powi j" "x < 2 * u" "j - int n = - 1022"
  shows "\<exists>k. binadeDown x u n = 2 powi k \<and> - 1022 \<le> k \<and> k \<le> j \<and> x < 2 powi (k + 1)
             \<and> (k = - 1022 \<or> 2 powi k \<le> x)"
  using assms
proof (induction n arbitrary: u j)
  case 0
  have a: "binadeDown x u 0 = 2 powi j" using "0.prems"(1) by simp
  have b: "x < 2 powi (j + 1)" using "0.prems"(1,2) by (simp add: power_int_add_1)
  have c: "j = - 1022" using "0.prems"(3) by simp
  then have d: "- 1022 \<le> j" by simp
  from a b c d show ?case by blast
next
  case (Suc n)
  show ?case
  proof (cases "u \<le> x")
    case True
    with Suc.prems show ?thesis
      by (auto simp: power_int_add_1 intro!: exI [of _ j])
  next
    case False
    have half: "u / 2 = 2 powi (j - 1)"
      using Suc.prems(1) by (simp add: power_int_diff)
    have "\<exists>k. binadeDown x (u / 2) n = 2 powi k \<and> - 1022 \<le> k \<and> k \<le> j - 1 \<and> x < 2 powi (k + 1)
             \<and> (k = - 1022 \<or> 2 powi k \<le> x)"
      by (rule Suc.IH) (use Suc.prems False half in auto)
    with False show ?thesis
      by auto
  qed
qed

lemma binade_char:
  assumes "0 < x"
  shows "\<exists>k. binade x = 2 powi k \<and> - 1022 \<le> k \<and> k \<le> 1023
             \<and> (k = - 1022 \<or> 2 powi k \<le> x) \<and> (k = 1023 \<or> x < 2 powi (k + 1))"
proof (cases "1 \<le> x")
  case True
  have "\<exists>k. binadeUp x 1 1023 = 2 powi k \<and> 0 \<le> k \<and> k \<le> 1023 \<and> 2 powi k \<le> x
             \<and> (k = 1023 \<or> x < 2 powi (k + 1))"
    by (rule binadeUp_char) (use True in auto)
  with True show ?thesis
    by (auto simp: binade_def)
next
  case False
  have "\<exists>k. binadeDown x (1 / 2) 1021 = 2 powi k \<and> - 1022 \<le> k \<and> k \<le> - 1 \<and> x < 2 powi (k + 1)
             \<and> (k = - 1022 \<or> 2 powi k \<le> x)"
    by (rule binadeDown_char) (use False in \<open>auto simp: power_int_minus\<close>)
  with False show ?thesis
    by (auto simp: binade_def)
qed


lemma binade_pos: "0 < x \<Longrightarrow> 0 < binade x"
  using binade_char [of x] by (auto simp: power_int_def)

lemma binade_mono:
  assumes "0 < x" "x \<le> y"
  shows "binade x \<le> binade y"
proof -
  from binade_char [OF assms(1)] obtain k where k:
    "binade x = 2 powi k" "- 1022 \<le> k" "k \<le> 1023"
    "k = - 1022 \<or> 2 powi k \<le> x" "k = 1023 \<or> x < 2 powi (k + 1)"
    by blast
  from assms have "0 < y" by simp
  from binade_char [OF this] obtain k' where k':
    "binade y = 2 powi k'" "- 1022 \<le> k'" "k' \<le> 1023"
    "k' = - 1022 \<or> 2 powi k' \<le> y" "k' = 1023 \<or> y < 2 powi (k' + 1)"
    by blast
  have "k \<le> k'"
  proof (rule ccontr)
    assume "\<not> k \<le> k'"
    then have lt: "k' < k" by simp
    with k k' have "2 powi k \<le> x" "y < 2 powi (k' + 1)" by auto
    moreover from lt have "(2::real) powi (k' + 1) \<le> 2 powi k"
      by (intro power_int_increasing) auto
    ultimately show False using assms(2) by linarith
  qed
  then have "(2::real) powi k \<le> 2 powi k'"
    by (intro power_int_increasing) auto
  with k k' show ?thesis by simp
qed


lemma rhe_of_int [simp]: "rhe (of_int n) = n"
  by (simp add: rhe_def)

lemma rhe_numeral [simp]: "rhe (numeral n) = numeral n"
  using rhe_of_int [of "numeral n"] by simp

lemma rhe_cases: "rhe q = \<lfloor>q\<rfloor> \<or> rhe q = \<lfloor>q\<rfloor> + 1"
  by (simp add: rhe_def Let_def)

lemma rhe_mono:
  assumes "q \<le> q'"
  shows "rhe q \<le> rhe q'"
proof (cases "\<lfloor>q\<rfloor> = \<lfloor>q'\<rfloor>")
  case True
  with assms show ?thesis
    by (auto simp: rhe_def Let_def)
next
  case False
  with assms have "\<lfloor>q\<rfloor> < \<lfloor>q'\<rfloor>"
    by (meson floor_mono le_neq_trans)
  moreover have "rhe q \<le> \<lfloor>q\<rfloor> + 1" using rhe_cases [of q] by auto
  moreover have "\<lfloor>q'\<rfloor> \<le> rhe q'" using rhe_cases [of q'] by auto
  ultimately show ?thesis by linarith
qed


lemma rhe_neg: "rhe (- q) = - rhe q"
proof (cases "q = of_int \<lfloor>q\<rfloor>")
  case True
  then obtain n where "q = of_int n" ..
  then have "- q = of_int (- n)" by simp
  then have "rhe (- q) = - n" by (simp only: rhe_of_int)
  with \<open>q = of_int n\<close> show ?thesis by simp
next
  case False
  have fl: "\<lfloor>- q\<rfloor> = - \<lfloor>q\<rfloor> - 1"
    using False by (simp add: floor_minus ceiling_altdef)
  have lo: "of_int \<lfloor>q\<rfloor> < q"
    using False by (metis of_int_floor_le order_le_less)
  show ?thesis
    using fl lo by (auto simp: rhe_def Let_def)
qed


lemma ulp_pos: "x \<noteq> 0 \<Longrightarrow> 0 < ulp x"
  by (simp add: ulp_def binade_pos)

lemma ulp_neg [simp]: "ulp (- x) = ulp x"
  by (simp add: ulp_def)

lemma round64_neg: "x \<noteq> 0 \<Longrightarrow> round64 (- x) = jneg (round64 x)"
  by (auto simp: round64_def Let_def rhe_neg)





lemma round64_pos_cases:
  assumes "0 < x"
  shows "round64 x = PInf \<or> (\<exists>v. round64 x = Fin v \<and> 0 \<le> v \<and> v = of_int (rhe (x / ulp x)) * ulp x)"
proof -
  from assms have u: "0 < ulp x" by (simp add: ulp_pos)
  with assms have "0 \<le> x / ulp x" by simp
  then have "rhe 0 \<le> rhe (x / ulp x)" by (rule rhe_mono)
  then have "0 \<le> rhe (x / ulp x)" using rhe_of_int [of 0] by simp
  with u have "0 \<le> of_int (rhe (x / ulp x)) * ulp x" by simp
  with assms show ?thesis
    by (auto simp: round64_def Let_def)
qed




lemma round64_neg_cases:
  assumes "x < 0"
  shows "round64 x = NInf \<or> round64 x = NegZero \<or> (\<exists>v. round64 x = Fin v \<and> v < 0)"
proof -
  from assms have "0 < - x" by simp
  from round64_pos_cases [OF this] have
    "round64 (- x) = PInf \<or> (\<exists>v. round64 (- x) = Fin v \<and> 0 \<le> v)" by blast
  moreover have "round64 x = jneg (round64 (- x))"
    using assms round64_neg [of "- x"] by simp
  ultimately show ?thesis
  proof (elim disjE exE conjE)
    assume "round64 (- x) = PInf" "round64 x = jneg (round64 (- x))"
    then show ?thesis by simp
  next
    fix v
    assume "round64 x = jneg (round64 (- x))" "round64 (- x) = Fin v" "0 \<le> v"
    then show ?thesis by (cases "v = 0") auto
  qed
qed




lemma jnegative_jneg: "a \<noteq> NaN \<Longrightarrow> jnegative (jneg a) = (\<not> jnegative a)"
  by (cases a) auto



lemma jfinite_jneg [simp]: "jfinite (jneg a) = jfinite a"
  by (cases a) auto

lemma jval_jneg [simp]: "jval (jneg a) = - jval a"
  by (cases a) auto




lemma binadeUp_numeral:
  "binadeUp x u (numeral k) = (if x < 2 * u then u else binadeUp x (2 * u) (pred_numeral k))"
  by (simp add: numeral_eq_Suc)

lemma binadeDown_numeral:
  "binadeDown x u (numeral k) = (if u \<le> x then u else binadeDown x (u / 2) (pred_numeral k))"
  by (simp add: numeral_eq_Suc)

lemmas number_eval = round64_def ulp_def binade_def rhe_def binadeUp_numeral binadeDown_numeral
  jsub_def jgt_def jge_def jeq_def zeroOf_def infOf_def isDouble_def Let_def

lemmas run_eval = detectPriceSpikes_def run_def runUpTo_def initialLedger_def spikesLoop.simps
  spikeStep_def isSpike_def priceChange_def executeTrade_def scanTrade.simps closeAtEnd_def
  recordOutcome_def targetPrice_def stopLossPrice_def monthOrZero_def threshold_def
  initialBalance_def candle_def at5m_def january_def recordedProfits_def jsum_def
  touchPrice_def targetHit_def stopHit_def



lemma scanTrade_target:
  assumes "i < length data" "isoMonth (timestamp (data ! i)) = Some month"
    and "targetHit isShort target (data ! i)"
  shows "scanTrade isoMonth data isShort entryPrice target stopLoss b mp i =
     (let profit = (if isShort
                    then jmul (jdiv (jsub entryPrice (low (data ! i))) entryPrice) b
                    else jmul (jdiv (jsub (high (data ! i)) entryPrice) entryPrice) b)
      in Inr (Some (\<lparr>balance = jadd b profit, profit = profit\<rparr>,
                    mp(month \<mapsto> jadd (monthOrZero mp month) profit),
                    TakeProfit i)))"
  using assms
  by (subst scanTrade.simps) (auto simp: Let_def targetHit_def touchPrice_def)

lemma scanTrade_none:
  assumes "\<forall>j. i \<le> j \<and> j < length data \<longrightarrow>
             isoMonth (timestamp (data ! j)) \<noteq> None
           \<and> \<not> targetHit isShort target (data ! j) \<and> \<not> stopHit isShort stopLoss (data ! j)"
  shows "scanTrade isoMonth data isShort entryPrice target stopLoss b mp i = Inr None"
  using assms
proof (induction "length data - i" arbitrary: i)
  case 0
  then show ?case by (subst scanTrade.simps) simp
next
  case (Suc k)
  then have less: "i < length data" by simp
  from Suc.hyps(2) have k: "k = length data - Suc i" by simp
  have rest: "scanTrade isoMonth data isShort entryPrice target stopLoss b mp (Suc i) = Inr None"
    by (rule Suc.hyps(1) [OF k]) (use Suc.prems in auto)
  from Suc.prems less have here: "isoMonth (timestamp (data ! i)) \<noteq> None"
    "\<not> targetHit isShort target (data ! i)" "\<not> stopHit isShort stopLoss (data ! i)"
    by auto
  from less here rest show ?case
    by (subst scanTrade.simps, cases isShort)
       (auto simp: Let_def targetHit_def stopHit_def touchPrice_def split: option.splits)
qed

lemma scanTrade_total:
  assumes "\<forall>c \<in> set data. isoMonth (timestamp c) \<noteq> None"
  shows "\<exists>x. scanTrade isoMonth data isShort entryPrice target stopLoss b mp i = Inr x"
proof (induction "length data - i" arbitrary: i)
  case 0
  then show ?case by (subst scanTrade.simps) simp
next
  case (Suc k)
  then have less: "i < length data" by simp
  from Suc.hyps(2) have k: "k = length data - Suc i" by simp
  from less assms obtain month where m: "isoMonth (timestamp (data ! i)) = Some month"
    by (meson nth_mem not_None_eq)
  from Suc.hyps(1) [OF k] less m show ?case
    by (subst scanTrade.simps, cases isShort) (auto simp: Let_def)
qed

lemma executeTrade_total:
  assumes "\<forall>c \<in> set data. isoMonth (timestamp c) \<noteq> None" "index < length data"
  shows "\<exists>x. executeTrade isoMonth data index change isShort b mp = Inr x"
proof -
  from assms(2) have "length data - 1 < length data" by simp
  with assms(1) obtain month where m: "isoMonth (timestamp (data ! (length data - 1))) = Some month"
    by (meson nth_mem not_None_eq)
  obtain x where "scanTrade isoMonth data isShort (close (data ! index))
      (targetPrice isShort (close (data ! index)) (jabs change))
      (stopLossPrice isShort (close (data ! index)) (jabs change)) b mp (index + 1) = Inr x"
    using scanTrade_total [OF assms(1)] by blast
  with assms(2) m show ?thesis
    by (cases x) (auto simp: executeTrade_def Let_def closeAtEnd_def)
qed

lemma spikeStep_cases:
  assumes "spikeStep isoMonth thr data i st = Inr st'"
  shows "(\<not> isSpike thr data i \<and> st' = st) \<or>
         (isSpike thr data i \<and>
          (\<exists>r mp ev.
              executeTrade isoMonth data i (priceChange data i) (jgt (priceChange data i) (Fin 0))
                (currentBalance st) (monthlyProfit st) = Inr (r, mp, ev) \<and>
              st' = (recordOutcome st r)
                      \<lparr>monthlyProfit := mp,
                       history := history st @ [(i, jgt (priceChange data i) (Fin 0), r, ev)]\<rparr>))"
  using assms
  by (auto simp: spikeStep_def isSpike_def Let_def split: if_splits sum.splits)

lemma spikesLoop_invariant:
  assumes step: "\<And>j s s'. P j s \<Longrightarrow> j < n \<Longrightarrow> spikeStep isoMonth thr data j s = Inr s' \<Longrightarrow> P (Suc j) s'"
  shows "P i st \<Longrightarrow> spikesLoop isoMonth thr data n i st = Inr st' \<Longrightarrow> P (max i n) st'"
proof (induction "n - i" arbitrary: i st)
  case 0
  then show ?case
    by (simp add: spikesLoop.simps [of _ _ _ n i] max_def)
next
  case (Suc k)
  then have less: "i < n" by simp
  from Suc.prems(2) less obtain s1 where
    s1: "spikeStep isoMonth thr data i st = Inr s1"
    and rest: "spikesLoop isoMonth thr data n (Suc i) s1 = Inr st'"
    by (subst (asm) spikesLoop.simps) (auto split: sum.splits)
  from step [OF Suc.prems(1) less s1] have p1: "P (Suc i) s1" .
  from Suc.hyps(2) have k: "k = n - Suc i" by simp
  have "P (max (Suc i) n) st'"
    by (rule Suc.hyps(1) [OF k p1 rest])
  with less show ?case
    by (simp add: max_def)
qed

lemma spikeStep_total:
  assumes "\<forall>c \<in> set data. isoMonth (timestamp c) \<noteq> None" "0 < i" "i < length data"
  shows "\<exists>s'. spikeStep isoMonth thr data i s = Inr s'"
proof -
  obtain x where "executeTrade isoMonth data i (priceChange data i) (jgt (priceChange data i) (Fin 0))
      (currentBalance s) (monthlyProfit s) = Inr x"
    using executeTrade_total [OF assms(1,3)] by blast
  with assms(2,3) show ?thesis
    by (cases x) (simp add: spikeStep_def Let_def)
qed

lemma spikesLoop_total:
  assumes "\<forall>c \<in> set data. isoMonth (timestamp c) \<noteq> None" "n \<le> length data"
  shows "0 < i \<Longrightarrow> \<exists>s'. spikesLoop isoMonth thr data n i s = Inr s'"
proof (induction "n - i" arbitrary: i s)
  case 0
  then show ?case by (subst spikesLoop.simps) simp
next
  case (Suc k)
  then have less: "i < n" by simp
  from Suc.hyps(2) have k: "k = n - Suc i" by simp
  from less assms(2) have "i < length data" by simp
  from spikeStep_total [OF assms(1) Suc.prems this]
  obtain s1 where s1: "spikeStep isoMonth thr data i s = Inr s1" by blast
  from Suc.hyps(1) [OF k, of s1] less s1 show ?case
    by (subst spikesLoop.simps) simp
qed

lemma counters_step:
  assumes "spikeStep isoMonth thr data i s = Inr s'"
    and "totalTrades s = length (recordedProfits s)
         \<and> winningTrades s = length (filter (\<lambda>p. jgt p (Fin 0)) (recordedProfits s))
         \<and> losingTrades s = length (filter (\<lambda>p. \<not> jgt p (Fin 0)) (recordedProfits s))"
  shows "totalTrades s' = length (recordedProfits s')
         \<and> winningTrades s' = length (filter (\<lambda>p. jgt p (Fin 0)) (recordedProfits s'))
         \<and> losingTrades s' = length (filter (\<lambda>p. \<not> jgt p (Fin 0)) (recordedProfits s'))"
  using spikeStep_cases [OF assms(1)] assms(2)
  by (auto simp: recordedProfits_def recordOutcome_def)

lemma indices_step:
  assumes "spikeStep isoMonth thr data i s = Inr s'"
    and "0 < i \<and> map fst (history s) = filter (isSpike thr data) [1..<i]"
  shows "0 < Suc i \<and> map fst (history s') = filter (isSpike thr data) [1..<Suc i]"
  using spikeStep_cases [OF assms(1)] assms(2)
  by auto



lemma jle_NaN_right [simp]: "jle a NaN = False"
  by (cases a) auto

lemma jlt_NaN_right [simp]: "jlt a NaN = False"
  by (cases a) auto


lemma jnonneg_def: "jnonneg a = (a = PInf \<or> (\<exists>v. a = Fin v \<and> 0 \<le> v))"
  by (cases a) auto

declare jnonneg.simps [simp del]





lemma jnonneg_ge: "jnonneg a \<Longrightarrow> jle (Fin 0) a"
  by (auto simp: jnonneg_def)



















subsection \<open>The runs on the example series\<close>

lemma series3_run:
  "runUpTo january threshold initialBalance series3 3 =
     Inr \<lparr>currentBalance = Fin (4577558613598041 / 4398046511104),
          totalTrades = 2, winningTrades = 1, losingTrades = 1,
          monthlyProfit = [''2024-01'' \<mapsto> Fin (2872193639904653 / 70368744177664)],
          history =
            [(1, False, \<lparr>balance = Fin (4577558613598041 / 4398046511104),
                          profit = Fin (2872193639904653 / 70368744177664)\<rparr>, TakeProfit 2),
             (2, True, \<lparr>balance = Fin (4577558613598041 / 4398046511104),
                         profit = NegZero\<rparr>, EndOfData)]\<rparr>"
  by (simp add: series3_def run_eval number_eval)


lemma overlapping_run:
  "runUpTo january threshold initialBalance overlapping 4 =
     Inr \<lparr>currentBalance = Fin (4581765928500245 / 4398046511104),
          totalTrades = 3, winningTrades = 2, losingTrades = 1,
          monthlyProfit = [''2024-01'' \<mapsto> Fin (1469755339169959 / 35184372088832)],
          history =
            [(1, False, \<lparr>balance = Fin (2221462268363755 / 2199023255552),
                          profit = Fin (2872193639904653 / 281474976710656)\<rparr>, TakeProfit 3),
             (2, False, \<lparr>balance = Fin (4581765928500245 / 4398046511104),
                          profit = Fin (2221462268363755 / 70368744177664)\<rparr>, TakeProfit 3),
             (3, True, \<lparr>balance = Fin (4581765928500245 / 4398046511104),
                         profit = NegZero\<rparr>, EndOfData)]\<rparr>"
  by (simp add: overlapping_def run_eval number_eval)

subsection \<open>Ledger consistency\<close>






subsection \<open>The counters\<close>

text \<open>
  Claim C2. Recording the result \<open>r\<close> of a trade in any ledger \<open>s\<close> adds one to
  \<open>totalTrades\<close>, and one to \<open>winningTrades\<close> if the profit is greater than zero
  and to \<open>losingTrades\<close> otherwise; a profit of exactly zero, \<open>+0\<close> or \<open>-0\<close>,
  counts as losing. When the loop has reached any bound \<open>n\<close>, the three counters
  count the recorded trades, those with a profit greater than zero and the others, and
  \<open>totalTrades = winningTrades + losingTrades\<close>.
\<close>

theorem trade_counters:
  assumes "runUpTo isoMonth thr b data n = Inr st"
  shows "totalTrades (recordOutcome s r) = totalTrades s + 1
       \<and> winningTrades (recordOutcome s r) = winningTrades s + (if jgt (profit r) (Fin 0) then 1 else 0)
       \<and> losingTrades (recordOutcome s r) = losingTrades s + (if jgt (profit r) (Fin 0) then 0 else 1)
       \<and> (profit r = Fin 0 \<longrightarrow>
            winningTrades (recordOutcome s r) = winningTrades s
          \<and> losingTrades (recordOutcome s r) = losingTrades s + 1)
       \<and> (jeq (profit r) (Fin 0) \<longrightarrow>
            winningTrades (recordOutcome s r) = winningTrades s
          \<and> losingTrades (recordOutcome s r) = losingTrades s + 1)
       \<and> totalTrades st = length (recordedProfits st)
       \<and> winningTrades st = length (filter (\<lambda>p. jgt p (Fin 0)) (recordedProfits st))
       \<and> losingTrades st = length (filter (\<lambda>p. \<not> jgt p (Fin 0)) (recordedProfits st))
       \<and> totalTrades st = winningTrades st + losingTrades st"
proof -
  let ?P = "\<lambda>(j::nat) s. totalTrades s = length (recordedProfits s)
         \<and> winningTrades s = length (filter (\<lambda>p. jgt p (Fin 0)) (recordedProfits s))
         \<and> losingTrades s = length (filter (\<lambda>p. \<not> jgt p (Fin 0)) (recordedProfits s))"
  have init: "?P 1 (initialLedger b)"
    by (simp add: initialLedger_def recordedProfits_def)
  have fin: "?P (max 1 n) st"
    by (rule spikesLoop_invariant [where P = ?P, OF _ init assms [unfolded runUpTo_def]])
       (rule counters_step)
  have "length (recordedProfits st) = length (filter (\<lambda>p. jgt p (Fin 0)) (recordedProfits st))
          + length (filter (\<lambda>p. \<not> jgt p (Fin 0)) (recordedProfits st))"
    by (rule sum_length_filter_compl [symmetric])
  moreover have "jeq (profit r) (Fin 0) \<Longrightarrow> \<not> jgt (profit r) (Fin 0)"
    by (cases "profit r") (auto simp: jeq_def jgt_def)
  ultimately show ?thesis
    using fin by (auto simp: recordOutcome_def jgt_def)
qed

text \<open>
  On the series with closes 100, 98, 102 the second trade is closed at the end of the
  data at its entry price, with profit \<open>-0\<close>, and is counted as losing.
\<close>

theorem trade_counters_witness:
  "\<exists>st. runUpTo january threshold initialBalance series3 3 = Inr st
      \<and> recordedProfits st = [Fin (2872193639904653 / 70368744177664), NegZero]
      \<and> totalTrades st = 2 \<and> winningTrades st = 1 \<and> losingTrades st = 1
      \<and> totalTrades st = winningTrades st + losingTrades st
      \<and> jeq NegZero (Fin 0)
      \<and> losingTrades (recordOutcome st \<lparr>balance = Fin 1000, profit = NegZero\<rparr>) = 2
      \<and> winningTrades (recordOutcome st \<lparr>balance = Fin 1000, profit = NegZero\<rparr>) = 1
      \<and> losingTrades (recordOutcome st \<lparr>balance = Fin 1000, profit = Fin 0\<rparr>) = 2
      \<and> winningTrades (recordOutcome st \<lparr>balance = Fin 1000, profit = Fin 0\<rparr>) = 1"
proof -
  obtain st where st: "runUpTo january threshold initialBalance series3 3 = Inr st"
    and ps: "recordedProfits st = [Fin (2872193639904653 / 70368744177664), NegZero]"
    using series3_run by (simp add: recordedProfits_def)
  from trade_counters [OF st, of st "\<lparr>balance = Fin 1000, profit = NegZero\<rparr>"]
    trade_counters [OF st, of st "\<lparr>balance = Fin 1000, profit = Fin 0\<rparr>"] ps st
  show ?thesis
    by (simp add: jgt_def jeq_def)
qed

subsection \<open>Spike detection\<close>

text \<open>Rounding keeps the sign, so the change has the sign of the move of the close.\<close>

lemma round64_pos_sign: "0 < x \<Longrightarrow> \<not> jlt (round64 x) (Fin 0) \<and> round64 x \<noteq> NegZero \<and> round64 x \<noteq> NaN"
  using round64_pos_cases [of x] by auto

lemma round64_neg_sign: "x < 0 \<Longrightarrow> \<not> jlt (Fin 0) (round64 x) \<and> round64 x \<noteq> NaN"
  using round64_neg_cases [of x] by auto

lemma jdiv_pos_sign:
  assumes "0 < p"
  shows "jlt (Fin 0) (jdiv a (Fin p)) \<Longrightarrow> jlt (Fin 0) a"
    and "jlt (jdiv a (Fin p)) (Fin 0) \<Longrightarrow> jlt a (Fin 0)"
proof -
  have pos: "\<not> jlt (round64 (v / p)) (Fin 0)" if "0 < v" for v
    using round64_pos_sign [of "v / p"] that assms by simp
  have neg: "\<not> jlt (Fin 0) (round64 (v / p))" if "v < 0" for v
    using round64_neg_sign [of "v / p"] that assms by (simp add: divide_neg_pos)
  have fin: "jdiv (Fin v) (Fin p) = (if v = 0 then Fin 0 else round64 (v / p))" for v
    using assms by (auto simp: Let_def zeroOf_def)
  show "jlt (Fin 0) (jdiv a (Fin p)) \<Longrightarrow> jlt (Fin 0) a"
  proof (cases a)
    case (Fin v)
    assume "jlt (Fin 0) (jdiv a (Fin p))"
    with Fin fin [of v] neg [of v] show ?thesis
      by (cases "v = 0"; cases "v < 0") auto
  qed (use assms in \<open>auto simp: Let_def zeroOf_def infOf_def\<close>)
  show "jlt (jdiv a (Fin p)) (Fin 0) \<Longrightarrow> jlt a (Fin 0)"
  proof (cases a)
    case (Fin v)
    assume "jlt (jdiv a (Fin p)) (Fin 0)"
    with Fin fin [of v] pos [of v] show ?thesis
      by (cases "v = 0"; cases "0 < v") auto
  qed (use assms in \<open>auto simp: Let_def zeroOf_def infOf_def\<close>)
qed

lemma jsub_sign:
  shows "jlt (Fin 0) (jsub (Fin c) (Fin p)) \<Longrightarrow> p < c"
    and "jlt (jsub (Fin c) (Fin p)) (Fin 0) \<Longrightarrow> c < p"
proof -
  have eq: "jsub (Fin c) (Fin p) = (if c - p = 0 then Fin 0 else round64 (c - p))"
    by (auto simp: jsub_def Let_def)
  show "jlt (Fin 0) (jsub (Fin c) (Fin p)) \<Longrightarrow> p < c"
    using round64_neg_sign [of "c - p"] unfolding eq
    by (cases "c - p = 0"; cases "c < p") auto
  show "jlt (jsub (Fin c) (Fin p)) (Fin 0) \<Longrightarrow> c < p"
    using round64_pos_sign [of "c - p"] unfolding eq
    by (cases "c - p = 0"; cases "p < c") auto
qed

lemma isDouble_round: "isDouble x \<Longrightarrow> (if x = 0 then Fin 0 else round64 x) = Fin x"
  by (simp add: isDouble_def)

lemma flagged_sign:
  assumes "jge thr (Fin 0)" "jgt (jabs ch) thr" "\<not> jgt ch (Fin 0)"
  shows "jlt ch (Fin 0)"
  using assms by (cases ch; cases thr) (auto simp: jge_def jgt_def)

lemma at_threshold: "jeq a thr \<Longrightarrow> \<not> jgt a thr"
  by (cases a; cases thr) (auto simp: jeq_def jgt_def)

text \<open>
  Claim C3. At an index \<open>i \<ge> 1\<close> whose previous close \<open>p\<close> is positive, with
  close \<open>c\<close> at \<open>i\<close>, the change is \<open>(c - p) / p\<close> as the code computes it, the
  difference and the quotient each rounded to a double; where neither is rounded it is
  the real number \<open>(c - p) / p\<close>. The index is flagged exactly when the magnitude of
  the change is strictly greater than the threshold, so not when it equals the
  threshold. The body of the loop then makes a trade with \<open>isShort\<close> true exactly when
  the change is greater than zero, and leaves the ledger alone at an index that is not
  flagged. For a threshold that is not negative a flagged change that is not greater
  than zero is less than zero, so the trade is Long exactly for a negative change. A
  change greater than zero comes from a close above the previous one, and a change
  less than zero from a close below it.
\<close>

theorem spike_detection:
  assumes "0 < i" "i < length data"
    and "close (data ! (i - 1)) = Fin p" "0 < p" "close (data ! i) = Fin c"
  shows "priceChange data i = jdiv (jsub (Fin c) (Fin p)) (Fin p)
       \<and> (isDouble (c - p) \<and> isDouble ((c - p) / p) \<longrightarrow>
            priceChange data i = Fin ((c - p) / p)
          \<and> (isSpike (Fin t) data i \<longleftrightarrow> t < \<bar>(c - p) / p\<bar>))
       \<and> (isSpike thr data i \<longleftrightarrow> jgt (jabs (priceChange data i)) thr)
       \<and> (jeq (jabs (priceChange data i)) thr \<longrightarrow> \<not> isSpike thr data i)
       \<and> spikeStep isoMonth thr data i st =
           (if jgt (jabs (priceChange data i)) thr then
              (case executeTrade isoMonth data i (priceChange data i)
                      (jgt (priceChange data i) (Fin 0))
                      (currentBalance st) (monthlyProfit st) of
                 Inl e \<Rightarrow> Inl e
               | Inr (r, mp, ev) \<Rightarrow>
                   Inr ((recordOutcome st r)
                          \<lparr>monthlyProfit := mp,
                           history := history st @ [(i, jgt (priceChange data i) (Fin 0), r, ev)]\<rparr>))
            else Inr st)
       \<and> (jge thr (Fin 0) \<and> isSpike thr data i \<and> \<not> jgt (priceChange data i) (Fin 0) \<longrightarrow>
            jlt (priceChange data i) (Fin 0))
       \<and> (jgt (priceChange data i) (Fin 0) \<longrightarrow> p < c)
       \<and> (jlt (priceChange data i) (Fin 0) \<longrightarrow> c < p)"
proof -
  from assms have ch: "priceChange data i = jdiv (jsub (Fin c) (Fin p)) (Fin p)"
    by (simp add: priceChange_def Let_def)
  have exact: "priceChange data i = Fin ((c - p) / p)"
    if "isDouble (c - p)" "isDouble ((c - p) / p)"
  proof -
    have "jsub (Fin c) (Fin p) = (if c - p = 0 then Fin 0 else round64 (c - p))"
      by (auto simp: jsub_def Let_def)
    with that(1) have s: "jsub (Fin c) (Fin p) = Fin (c - p)"
      by (simp only: isDouble_round)
    have "jdiv (Fin (c - p)) (Fin p) = (if (c - p) / p = 0 then Fin 0 else round64 ((c - p) / p))"
      using assms(4) by (auto simp: Let_def zeroOf_def)
    with that(2) have "jdiv (Fin (c - p)) (Fin p) = Fin ((c - p) / p)"
      by (simp only: isDouble_round)
    with ch s show ?thesis
      by simp
  qed
  have sp: "isSpike thr data i \<longleftrightarrow> jgt (jabs (priceChange data i)) thr"
    by (simp add: isSpike_def)
  have step: "spikeStep isoMonth thr data i st =
           (if jgt (jabs (priceChange data i)) thr then
              (case executeTrade isoMonth data i (priceChange data i)
                      (jgt (priceChange data i) (Fin 0))
                      (currentBalance st) (monthlyProfit st) of
                 Inl e \<Rightarrow> Inl e
               | Inr (r, mp, ev) \<Rightarrow>
                   Inr ((recordOutcome st r)
                          \<lparr>monthlyProfit := mp,
                           history := history st @ [(i, jgt (priceChange data i) (Fin 0), r, ev)]\<rparr>))
            else Inr st)"
    using assms(1,2) by (simp add: spikeStep_def Let_def)
  have up: "p < c" if "jgt (priceChange data i) (Fin 0)"
    using that jdiv_pos_sign(1) [OF assms(4)] jsub_sign(1) [of c p]
    unfolding ch jgt_def by blast
  have down: "c < p" if "jlt (priceChange data i) (Fin 0)"
    using that jdiv_pos_sign(2) [OF assms(4)] jsub_sign(2) [of c p]
    unfolding ch by blast
  have ex: "isSpike (Fin t) data i \<longleftrightarrow> t < \<bar>(c - p) / p\<bar>"
    if "isDouble (c - p)" "isDouble ((c - p) / p)"
    using exact [OF that] by (simp add: isSpike_def jgt_def)
  from ch exact ex sp step up down at_threshold [of "jabs (priceChange data i)" thr]
    flagged_sign [of thr "priceChange data i"]
  show ?thesis
    by (simp only:) blast
qed

text \<open>
  On closes 100, 101 the change is the double 0.01: not a spike for the threshold 0.01,
  and a spike for the threshold 0.0099. On closes 4, 2 the change is exactly -0.5.
\<close>

theorem spike_detection_witness:
  "(0::nat) < 1 \<and> 1 < length boundary2
 \<and> close (boundary2 ! (1 - 1)) = Fin 100 \<and> (0::real) < 100 \<and> close (boundary2 ! 1) = Fin 101
 \<and> priceChange boundary2 1 = threshold
 \<and> jeq (jabs (priceChange boundary2 1)) threshold
 \<and> \<not> isSpike threshold boundary2 1
 \<and> spikeStep january threshold boundary2 1 (initialLedger initialBalance)
       = Inr (initialLedger initialBalance)
 \<and> isSpike (round64 (99 / 10000)) boundary2 1
 \<and> jgt (priceChange boundary2 1) (Fin 0) \<and> (100::real) < 101
 \<and> 1 < length halving
 \<and> close (halving ! (1 - 1)) = Fin 4 \<and> (0::real) < 4 \<and> close (halving ! 1) = Fin 2
 \<and> isDouble (2 - 4) \<and> isDouble ((2 - 4) / 4)
 \<and> priceChange halving 1 = Fin (- 1 / 2)
 \<and> isSpike threshold halving 1
 \<and> \<not> jgt (priceChange halving 1) (Fin 0)
 \<and> jlt (priceChange halving 1) (Fin 0) \<and> (2::real) < 4"
proof -
  have h1: "(0::nat) < 1" by simp
  have h2: "1 < length boundary2" by (simp add: boundary2_def)
  have h3: "close (boundary2 ! (1 - 1)) = Fin 100" by (simp add: boundary2_def candle_def)
  have h4: "(0::real) < 100" by simp
  have h5: "close (boundary2 ! 1) = Fin 101" by (simp add: boundary2_def candle_def)
  have g2: "1 < length halving" by (simp add: halving_def)
  have g3: "close (halving ! (1 - 1)) = Fin 4" by (simp add: halving_def candle_def)
  have g4: "(0::real) < 4" by simp
  have g5: "close (halving ! 1) = Fin 2" by (simp add: halving_def candle_def)
  have d: "isDouble (2 - 4) \<and> isDouble ((2 - 4) / 4)"
    by (simp add: number_eval)
  have v1: "jdiv (jsub (Fin 101) (Fin 100)) (Fin 100) = threshold"
    by (simp add: threshold_def number_eval)
  have v2: "jgt (jabs threshold) (round64 (99 / 10000)) \<and> jeq (jabs threshold) threshold
      \<and> \<not> jgt (jabs threshold) threshold \<and> jgt threshold (Fin 0) \<and> jge threshold (Fin 0)"
    by (simp add: threshold_def number_eval)
  have v3: "jgt (jabs (Fin (- 1 / 2))) threshold \<and> \<not> jgt (Fin (- 1 / 2)) (Fin 0)"
    by (simp add: threshold_def number_eval)
  note at = spike_detection [OF h1 h2 h3 h4 h5, of _ threshold january "initialLedger initialBalance"]
  note below = spike_detection [OF h1 h2 h3 h4 h5, of _ "round64 (99 / 10000)" january "initialLedger initialBalance"]
  note half = spike_detection [OF h1 g2 g3 g4 g5, of _ threshold january "initialLedger initialBalance"]
  from at v1 v2 have a: "priceChange boundary2 1 = threshold
     \<and> jeq (jabs (priceChange boundary2 1)) threshold
     \<and> \<not> isSpike threshold boundary2 1
     \<and> spikeStep january threshold boundary2 1 (initialLedger initialBalance)
       = Inr (initialLedger initialBalance)
     \<and> jgt (priceChange boundary2 1) (Fin 0) \<and> (100::real) < 101"
    by simp
  from below v1 v2 have b: "isSpike (round64 (99 / 10000)) boundary2 1"
    by simp
  from half d have "priceChange halving 1 = Fin ((2 - 4) / 4)"
    by blast
  then have c1: "priceChange halving 1 = Fin (- 1 / 2)"
    by simp
  with half v3 v2 have c: "isSpike threshold halving 1
     \<and> \<not> jgt (priceChange halving 1) (Fin 0)
     \<and> jlt (priceChange halving 1) (Fin 0) \<and> (2::real) < 4"
    by simp
  from h1 h2 h3 h4 h5 a b g2 g3 g4 g5 d c1 c show ?thesis
    by blast
qed

subsection \<open>Target and stop\<close>

text \<open>An operation whose exact result is a double is not rounded.\<close>

lemma jdiv_exact:
  assumes "y \<noteq> 0" "isDouble (x / y)"
  shows "jfinite (jdiv (Fin x) (Fin y)) \<and> jval (jdiv (Fin x) (Fin y)) = x / y"
  using assms by (auto simp: Let_def zeroOf_def isDouble_def)

lemma jmul_exact:
  assumes "jfinite a" "jfinite b" "isDouble (jval a * jval b)"
  shows "jfinite (jmul a b) \<and> jval (jmul a b) = jval a * jval b"
  using assms by (cases a; cases b) (auto simp: Let_def zeroOf_def isDouble_def)

lemma jadd_exact:
  assumes "jfinite b" "isDouble (x + jval b)"
  shows "jadd (Fin x) b = Fin (x + jval b)"
  using assms by (cases b) (auto simp: Let_def isDouble_def)

lemma jsub_exact:
  assumes "jfinite b" "isDouble (x - jval b)"
  shows "jsub (Fin x) b = Fin (x - jval b)"
  using jadd_exact [of "jneg b" x] assms by (simp add: jsub_def)

text \<open>
  Claim C4, as amended. For a trade opened at \<open>index\<close> with entry price \<open>E\<close> on a
  spike of magnitude \<open>mag = abs(change)\<close>, \<open>executeTrade\<close> scans the candles after
  \<open>index\<close> with the target \<open>E - (mag / 2) * E\<close> for Short and
  \<open>E + (mag / 2) * E\<close> for Long, and the stop \<open>E + mag * E\<close> for Short and
  \<open>E - mag * E\<close> for Long, every operation rounded to a double. Where none of them
  is rounded, these are the real numbers \<open>e * (1 - \<bar>c\<bar> / 2)\<close>,
  \<open>e * (1 + \<bar>c\<bar> / 2)\<close>, \<open>e * (1 + \<bar>c\<bar>)\<close> and \<open>e * (1 - \<bar>c\<bar>)\<close>.
\<close>

theorem trade_prices:
  assumes "index < length data" "close (data ! index) = E"
  shows "executeTrade isoMonth data index change isShort b mp =
           (case scanTrade isoMonth data isShort E
                   (if isShort then jsub E (jmul (jdiv (jabs change) (Fin 2)) E)
                    else jadd E (jmul (jdiv (jabs change) (Fin 2)) E))
                   (if isShort then jadd E (jmul (jabs change) E)
                    else jsub E (jmul (jabs change) E))
                   b mp (index + 1) of
              Inl err \<Rightarrow> Inl err
            | Inr (Some r) \<Rightarrow> Inr r
            | Inr None \<Rightarrow> closeAtEnd isoMonth data isShort E b mp)
       \<and> (isDouble (\<bar>c\<bar> / 2) \<and> isDouble (\<bar>c\<bar> / 2 * e)
            \<and> isDouble (e - \<bar>c\<bar> / 2 * e) \<and> isDouble (e + \<bar>c\<bar> / 2 * e) \<longrightarrow>
          targetPrice isShort (Fin e) (jabs (Fin c)) =
            Fin (if isShort then e * (1 - \<bar>c\<bar> / 2) else e * (1 + \<bar>c\<bar> / 2)))
       \<and> (isDouble (\<bar>c\<bar> * e) \<and> isDouble (e + \<bar>c\<bar> * e) \<and> isDouble (e - \<bar>c\<bar> * e) \<longrightarrow>
          stopLossPrice isShort (Fin e) (jabs (Fin c)) =
            Fin (if isShort then e * (1 + \<bar>c\<bar>) else e * (1 - \<bar>c\<bar>)))"
proof -
  from assms have scan: "executeTrade isoMonth data index change isShort b mp =
           (case scanTrade isoMonth data isShort E
                   (if isShort then jsub E (jmul (jdiv (jabs change) (Fin 2)) E)
                    else jadd E (jmul (jdiv (jabs change) (Fin 2)) E))
                   (if isShort then jadd E (jmul (jabs change) E)
                    else jsub E (jmul (jabs change) E))
                   b mp (index + 1) of
              Inl err \<Rightarrow> Inl err
            | Inr (Some r) \<Rightarrow> Inr r
            | Inr None \<Rightarrow> closeAtEnd isoMonth data isShort E b mp)"
    by (simp add: executeTrade_def targetPrice_def stopLossPrice_def Let_def)
  have target: "targetPrice isShort (Fin e) (jabs (Fin c)) =
            Fin (if isShort then e * (1 - \<bar>c\<bar> / 2) else e * (1 + \<bar>c\<bar> / 2))"
    if d: "isDouble (\<bar>c\<bar> / 2)" "isDouble (\<bar>c\<bar> / 2 * e)"
      "isDouble (e - \<bar>c\<bar> / 2 * e)" "isDouble (e + \<bar>c\<bar> / 2 * e)"
  proof -
    define h where "h = jdiv (Fin \<bar>c\<bar>) (Fin 2)"
    define g where "g = jmul h (Fin e)"
    have h: "jfinite h \<and> jval h = \<bar>c\<bar> / 2"
      unfolding h_def by (rule jdiv_exact) (use d(1) in simp_all)
    have g: "jfinite g \<and> jval g = \<bar>c\<bar> / 2 * e"
      unfolding g_def using jmul_exact [of h "Fin e"] h d(2) by simp
    have "jadd (Fin e) g = Fin (e + \<bar>c\<bar> / 2 * e)"
      using jadd_exact [of g e] g d(4) by simp
    moreover have "jsub (Fin e) g = Fin (e - \<bar>c\<bar> / 2 * e)"
      using jsub_exact [of g e] g d(3) by simp
    ultimately have "targetPrice isShort (Fin e) (Fin \<bar>c\<bar>) =
        Fin (if isShort then e - \<bar>c\<bar> / 2 * e else e + \<bar>c\<bar> / 2 * e)"
      unfolding targetPrice_def g_def h_def by simp
    then show ?thesis
      by (simp add: algebra_simps)
  qed
  have stop: "stopLossPrice isShort (Fin e) (jabs (Fin c)) =
            Fin (if isShort then e * (1 + \<bar>c\<bar>) else e * (1 - \<bar>c\<bar>))"
    if d: "isDouble (\<bar>c\<bar> * e)" "isDouble (e + \<bar>c\<bar> * e)" "isDouble (e - \<bar>c\<bar> * e)"
  proof -
    define g where "g = jmul (Fin \<bar>c\<bar>) (Fin e)"
    have g: "jfinite g \<and> jval g = \<bar>c\<bar> * e"
      unfolding g_def using jmul_exact [of "Fin \<bar>c\<bar>" "Fin e"] d(1) by simp
    have "jadd (Fin e) g = Fin (e + \<bar>c\<bar> * e)"
      using jadd_exact [of g e] g d(2) by simp
    moreover have "jsub (Fin e) g = Fin (e - \<bar>c\<bar> * e)"
      using jsub_exact [of g e] g d(3) by simp
    ultimately have "stopLossPrice isShort (Fin e) (Fin \<bar>c\<bar>) =
        Fin (if isShort then e + \<bar>c\<bar> * e else e - \<bar>c\<bar> * e)"
      unfolding stopLossPrice_def g_def by simp
    then show ?thesis
      by (simp add: algebra_simps)
  qed
  from scan target stop show ?thesis
    by blast
qed

text \<open>
  On closes 4, 2, 2 the trade at index 1 has entry price 2 and change -0.5, and no
  operation is rounded: the target is 2.5 and the stop is 1.
\<close>

theorem trade_prices_witness:
  "1 < length halving \<and> close (halving ! 1) = Fin 2
 \<and> priceChange halving 1 = Fin (- 1 / 2)
 \<and> isDouble (\<bar>- 1 / 2\<bar> / 2) \<and> isDouble (\<bar>- 1 / 2\<bar> / 2 * 2)
 \<and> isDouble (2 - \<bar>- 1 / 2\<bar> / 2 * 2) \<and> isDouble (2 + \<bar>- 1 / 2\<bar> / 2 * 2)
 \<and> isDouble (\<bar>- 1 / 2\<bar> * 2) \<and> isDouble (2 + \<bar>- 1 / 2\<bar> * 2) \<and> isDouble (2 - \<bar>- 1 / 2\<bar> * 2)
 \<and> targetPrice False (Fin 2) (jabs (Fin (- 1 / 2))) = Fin (5 / 2)
 \<and> stopLossPrice False (Fin 2) (jabs (Fin (- 1 / 2))) = Fin 1
 \<and> targetPrice True (Fin 2) (jabs (Fin (- 1 / 2))) = Fin (3 / 2)
 \<and> stopLossPrice True (Fin 2) (jabs (Fin (- 1 / 2))) = Fin 3
 \<and> executeTrade january halving 1 (Fin (- 1 / 2)) False (Fin 1000) Map.empty =
      Inr (\<lparr>balance = Fin 1500, profit = Fin 500\<rparr>, [''2024-01'' \<mapsto> Fin 500], TakeProfit 2)"
proof -
  have a: "1 < length halving" by (simp add: halving_def)
  have b: "close (halving ! 1) = Fin 2" by (simp add: halving_def candle_def)
  have c: "priceChange halving 1 = Fin (- 1 / 2)"
    by (simp add: priceChange_def halving_def candle_def number_eval)
  have d: "isDouble (\<bar>- 1 / 2\<bar> / 2) \<and> isDouble (\<bar>- 1 / 2\<bar> / 2 * 2)
     \<and> isDouble (2 - \<bar>- 1 / 2\<bar> / 2 * 2) \<and> isDouble (2 + \<bar>- 1 / 2\<bar> / 2 * 2)"
    by (simp add: number_eval)
  have e: "isDouble (\<bar>- 1 / 2\<bar> * 2) \<and> isDouble (2 + \<bar>- 1 / 2\<bar> * 2) \<and> isDouble (2 - \<bar>- 1 / 2\<bar> * 2)"
    by (simp add: number_eval)
  note long = trade_prices [where isoMonth = january and change = "Fin (- 1 / 2)"
      and c = "- 1 / 2" and e = 2 and isShort = False and b = "Fin 1000" and mp = Map.empty, OF a b]
  note short = trade_prices [where isoMonth = january and change = "Fin (- 1 / 2)"
      and c = "- 1 / 2" and e = 2 and isShort = True and b = "Fin 1000" and mp = Map.empty, OF a b]
  from long d e have t1: "targetPrice False (Fin 2) (jabs (Fin (- 1 / 2))) = Fin (5 / 2)
      \<and> stopLossPrice False (Fin 2) (jabs (Fin (- 1 / 2))) = Fin 1"
    by simp
  from short d e have t2: "targetPrice True (Fin 2) (jabs (Fin (- 1 / 2))) = Fin (3 / 2)
      \<and> stopLossPrice True (Fin 2) (jabs (Fin (- 1 / 2))) = Fin 3"
    by simp
  have s: "scanTrade january halving False (Fin 2) (Fin (5 / 2)) (Fin 1) (Fin 1000) Map.empty (1 + 1)
      = Inr (Some (\<lparr>balance = Fin 1500, profit = Fin 500\<rparr>, [''2024-01'' \<mapsto> Fin 500], TakeProfit 2))"
    by (simp add: halving_def run_eval number_eval)
  from t1 have t1': "jadd (Fin 2) (jmul (jdiv (jabs (Fin (- 1 / 2))) (Fin 2)) (Fin 2)) = Fin (5 / 2)"
      "jsub (Fin 2) (jmul (jabs (Fin (- 1 / 2))) (Fin 2)) = Fin 1"
    by (simp_all add: targetPrice_def stopLossPrice_def)
  have "executeTrade january halving 1 (Fin (- 1 / 2)) False (Fin 1000) Map.empty =
      Inr (\<lparr>balance = Fin 1500, profit = Fin 500\<rparr>, [''2024-01'' \<mapsto> Fin 500], TakeProfit 2)"
    using long [THEN conjunct1] unfolding if_False t1' s by simp
  with a b c d e t1 t2 show ?thesis
    by blast
qed

text \<open>
  Claim C4 as it was stated fails. On closes 100, 98, 102 the trade at index 1 is Long
  with entry price 98 and magnitude 0.02; its stop \<open>98 - 0.02 * 98\<close> is the double
  96.04, and \<open>98 * (1 - 0.02)\<close> is the double 96.03999999999999.
\<close>

theorem trade_prices_counterexample:
  "close (series3 ! 1) = Fin 98
 \<and> jabs (priceChange series3 1) = round64 (2 / 100)
 \<and> \<not> jgt (priceChange series3 1) (Fin 0)
 \<and> stopLossPrice False (Fin 98) (jabs (priceChange series3 1))
      = Fin (6758214190822851 / 70368744177664)
 \<and> jmul (Fin 98) (jsub (Fin 1) (jabs (priceChange series3 1)))
      = Fin (3379107095411425 / 35184372088832)
 \<and> \<not> jeq (stopLossPrice False (Fin 98) (jabs (priceChange series3 1)))
          (jmul (Fin 98) (jsub (Fin 1) (jabs (priceChange series3 1))))"
  by (simp add: series3_def run_eval number_eval)

subsection \<open>Target before stop\<close>

text \<open>
  Claim C5. The scan tests the low of a candle for a Short trade and the high for a
  Long trade, and tests the target first. So when the first candle after the open
  meets the target condition, the trade ends there as a take profit, with the profit
  computed from that low or high, whether or not the candle also reaches the stop.
\<close>

theorem target_before_stop:
  assumes "Suc index < length data"
    and "isoMonth (timestamp (data ! Suc index)) = Some month"
    and "targetHit isShort (targetPrice isShort (close (data ! index)) (jabs change)) (data ! Suc index)"
  shows "executeTrade isoMonth data index change isShort b mp =
     (let entryPrice = close (data ! index);
          profit = jmul (jdiv (if isShort then jsub entryPrice (low (data ! Suc index))
                               else jsub (high (data ! Suc index)) entryPrice) entryPrice) b
      in Inr (\<lparr>balance = jadd b profit, profit = profit\<rparr>,
              mp(month \<mapsto> jadd (monthOrZero mp month) profit),
              TakeProfit (Suc index)))"
proof -
  have "scanTrade isoMonth data isShort (close (data ! index))
          (targetPrice isShort (close (data ! index)) (jabs change))
          (stopLossPrice isShort (close (data ! index)) (jabs change)) b mp (Suc index) =
     (let profit = (if isShort
                    then jmul (jdiv (jsub (close (data ! index)) (low (data ! Suc index))) (close (data ! index))) b
                    else jmul (jdiv (jsub (high (data ! Suc index)) (close (data ! index))) (close (data ! index))) b)
      in Inr (Some (\<lparr>balance = jadd b profit, profit = profit\<rparr>,
                    mp(month \<mapsto> jadd (monthOrZero mp month) profit),
                    TakeProfit (Suc index))))"
    using assms by (rule scanTrade_target)
  with assms(1) show ?thesis
    by (simp add: executeTrade_def Let_def)
qed

text \<open>
  Two candles that span target and stop, one after a Long and one after a Short open.
\<close>

theorem target_before_stop_witness:
  "Suc 1 < length spanning
 \<and> january (timestamp (spanning ! Suc 1)) = Some ''2024-01''
 \<and> targetHit False (targetPrice False (close (spanning ! 1)) (jabs (priceChange spanning 1))) (spanning ! Suc 1)
 \<and> jle (low (spanning ! Suc 1)) (stopLossPrice False (close (spanning ! 1)) (jabs (priceChange spanning 1)))
 \<and> executeTrade january spanning 1 (priceChange spanning 1) False (Fin 1000) Map.empty =
       Inr (\<lparr>balance = Fin (4577558613598041 / 4398046511104),
              profit = Fin (2872193639904653 / 70368744177664)\<rparr>,
            [''2024-01'' \<mapsto> Fin (2872193639904653 / 70368744177664)], TakeProfit 2)
 \<and> Suc 1 < length spanningShort
 \<and> january (timestamp (spanningShort ! Suc 1)) = Some ''2024-01''
 \<and> targetHit True (targetPrice True (close (spanningShort ! 1)) (jabs (priceChange spanningShort 1))) (spanningShort ! Suc 1)
 \<and> jge (high (spanningShort ! Suc 1)) (stopLossPrice True (close (spanningShort ! 1)) (jabs (priceChange spanningShort 1)))
 \<and> executeTrade january spanningShort 1 (priceChange spanningShort 1) True (Fin 1000) Map.empty =
       Inr (\<lparr>balance = Fin (8968565434408157 / 8796093022208),
              profit = Fin (1379779297601255 / 70368744177664)\<rparr>,
            [''2024-01'' \<mapsto> Fin (1379779297601255 / 70368744177664)], TakeProfit 2)"
proof -
  have l1: "Suc 1 < length spanning"
    by (simp add: spanning_def)
  have l2: "january (timestamp (spanning ! Suc 1)) = Some ''2024-01''"
    by (simp add: spanning_def candle_def at5m_def january_def)
  have l3: "targetHit False (targetPrice False (close (spanning ! 1)) (jabs (priceChange spanning 1))) (spanning ! Suc 1)"
    by (simp add: spanning_def run_eval number_eval)
  have l4: "jle (low (spanning ! Suc 1)) (stopLossPrice False (close (spanning ! 1)) (jabs (priceChange spanning 1)))"
    by (simp add: spanning_def run_eval number_eval)
  have s1: "Suc 1 < length spanningShort"
    by (simp add: spanningShort_def)
  have s2: "january (timestamp (spanningShort ! Suc 1)) = Some ''2024-01''"
    by (simp add: spanningShort_def candle_def at5m_def january_def)
  have s3: "targetHit True (targetPrice True (close (spanningShort ! 1)) (jabs (priceChange spanningShort 1))) (spanningShort ! Suc 1)"
    by (simp add: spanningShort_def run_eval number_eval)
  have s4: "jge (high (spanningShort ! Suc 1)) (stopLossPrice True (close (spanningShort ! 1)) (jabs (priceChange spanningShort 1)))"
    by (simp add: spanningShort_def run_eval number_eval)
  have long: "executeTrade january spanning 1 (priceChange spanning 1) False (Fin 1000) Map.empty =
       Inr (\<lparr>balance = Fin (4577558613598041 / 4398046511104),
              profit = Fin (2872193639904653 / 70368744177664)\<rparr>,
            [''2024-01'' \<mapsto> Fin (2872193639904653 / 70368744177664)], TakeProfit 2)"
    using target_before_stop [where isoMonth = january and b = "Fin 1000" and mp = Map.empty, OF l1 l2 l3]
    by (simp add: spanning_def candle_def Let_def monthOrZero_def number_eval)
  have short: "executeTrade january spanningShort 1 (priceChange spanningShort 1) True (Fin 1000) Map.empty =
       Inr (\<lparr>balance = Fin (8968565434408157 / 8796093022208),
              profit = Fin (1379779297601255 / 70368744177664)\<rparr>,
            [''2024-01'' \<mapsto> Fin (1379779297601255 / 70368744177664)], TakeProfit 2)"
    using target_before_stop [where isoMonth = january and b = "Fin 1000" and mp = Map.empty, OF s1 s2 s3]
    by (simp add: spanningShort_def candle_def Let_def monthOrZero_def number_eval)
  from l1 l2 l3 l4 s1 s2 s3 s4 long short show ?thesis
    by blast
qed

subsection \<open>The close at the end of the data\<close>







subsection \<open>Prices that are zero or negative\<close>

lemma change_from_zero:
  assumes "close (data ! (i - 1)) = zeroOf s" "close (data ! i) = cur" "jfinite cur" "isNumber cur"
  shows "priceChange data i = (if jval cur = 0 then NaN else infOf (jnegative cur \<noteq> s))"
  using assms
  by (cases cur; cases s)
     (auto simp: priceChange_def jsub_def Let_def zeroOf_def infOf_def isDouble_def)

lemma jadd_NaN_right: "jadd a NaN = NaN"
  by (cases a) auto

lemma entry_zero_last:
  assumes "index < length data" "index = length data - 1"
    and "close (data ! index) = zeroOf s" "isoMonth (timestamp (data ! index)) = Some month"
  shows "executeTrade isoMonth data index change isShort bal mp =
           Inr (\<lparr>balance = NaN, profit = NaN\<rparr>, mp(month \<mapsto> NaN), EndOfData)"
proof -
  have scan: "scanTrade isoMonth data isShort E tg sl bal mp (index + 1) = Inr None" for E tg sl
    by (rule scanTrade_none) (use assms(1,2) in auto)
  have nan: "jdiv (jsub (zeroOf s) (zeroOf s)) (zeroOf s) = NaN"
    by (cases s) (simp_all add: zeroOf_def jsub_def)
  have "closeAtEnd isoMonth data isShort (zeroOf s) bal mp =
           Inr (\<lparr>balance = NaN, profit = NaN\<rparr>, mp(month \<mapsto> NaN), EndOfData)"
    using assms(2,3,4) by (simp add: closeAtEnd_def Let_def nan jadd_NaN_right)
  with assms(1,3) scan show ?thesis
    by (simp add: executeTrade_def Let_def)
qed

text \<open>
  Claim C7, as amended. The code has no guard on a price and no error for it. A run
  over candles with valid dates returns a ledger whatever the prices are, and makes a
  trade at every index from 1 on at which the magnitude of the change exceeds the
  threshold; a trade at an index of the series returns a result whatever the entry
  price is. At an index whose previous close is zero, \<open>+0\<close> or \<open>-0\<close>, the division
  is made: the change is NaN when the close is zero too, and is never flagged, and
  otherwise it is plus or minus infinity, with the sign of the close for \<open>+0\<close> and
  the opposite sign for \<open>-0\<close>, which exceeds every finite threshold. A trade entered
  at the last index at a price of zero has the profit NaN and makes the balance NaN.
\<close>

theorem no_price_guard:
  assumes "n \<le> length data" "\<forall>c \<in> set data. isoMonth (timestamp c) \<noteq> None"
  shows "(\<exists>st. runUpTo isoMonth thr b data n = Inr st
             \<and> map fst (history st) = filter (isSpike thr data) [1..<n])
       \<and> (\<forall>i. i < length data \<longrightarrow>
             (\<exists>r. executeTrade isoMonth data i change isShort bal mp = Inr r))
       \<and> (\<forall>i s. 0 < i \<and> i < length data \<and> close (data ! (i - 1)) = zeroOf s
               \<and> jfinite (close (data ! i)) \<and> isNumber (close (data ! i)) \<longrightarrow>
             priceChange data i =
               (if jval (close (data ! i)) = 0 then NaN
                else infOf (jnegative (close (data ! i)) \<noteq> s))
           \<and> (isSpike (Fin t) data i \<longleftrightarrow> jval (close (data ! i)) \<noteq> 0)
           \<and> (jgt (priceChange data i) (Fin 0) \<longleftrightarrow>
                jval (close (data ! i)) \<noteq> 0 \<and> jnegative (close (data ! i)) = s))
       \<and> (\<forall>i s. i < length data \<and> i = length data - 1 \<and> close (data ! i) = zeroOf s \<longrightarrow>
             (\<exists>month. isoMonth (timestamp (data ! i)) = Some month
                \<and> executeTrade isoMonth data i change isShort bal mp =
                    Inr (\<lparr>balance = NaN, profit = NaN\<rparr>, mp(month \<mapsto> NaN), EndOfData)))"
proof -
  obtain st where st: "runUpTo isoMonth thr b data n = Inr st"
    unfolding runUpTo_def using spikesLoop_total [OF assms(2,1), of 1] by auto
  let ?P = "\<lambda>(j::nat) s. 0 < j \<and> map fst (history s) = filter (isSpike thr data) [1..<j]"
  have init: "?P 1 (initialLedger b)"
    by (simp add: initialLedger_def)
  have "?P (max 1 n) st"
    by (rule spikesLoop_invariant [where P = ?P, OF _ init st [unfolded runUpTo_def]])
       (rule indices_step)
  then have idx: "map fst (history st) = filter (isSpike thr data) [1..<n]"
    by (cases "n = 0") (simp_all add: max_def)
  have total: "\<exists>r. executeTrade isoMonth data i change isShort bal mp = Inr r"
    if "i < length data" for i
    using executeTrade_total [OF assms(2) that] .
  have zero: "priceChange data i =
               (if jval (close (data ! i)) = 0 then NaN
                else infOf (jnegative (close (data ! i)) \<noteq> s))
           \<and> (isSpike (Fin t) data i \<longleftrightarrow> jval (close (data ! i)) \<noteq> 0)
           \<and> (jgt (priceChange data i) (Fin 0) \<longleftrightarrow>
                jval (close (data ! i)) \<noteq> 0 \<and> jnegative (close (data ! i)) = s)"
    if "close (data ! (i - 1)) = zeroOf s" "jfinite (close (data ! i))" "isNumber (close (data ! i))"
    for i s
  proof -
    have ch: "priceChange data i =
               (if jval (close (data ! i)) = 0 then NaN
                else infOf (jnegative (close (data ! i)) \<noteq> s))"
      using that by (intro change_from_zero) simp_all
    then show ?thesis
      by (auto simp: isSpike_def jgt_def infOf_def)
  qed
  have entry: "\<exists>month. isoMonth (timestamp (data ! i)) = Some month
                \<and> executeTrade isoMonth data i change isShort bal mp =
                    Inr (\<lparr>balance = NaN, profit = NaN\<rparr>, mp(month \<mapsto> NaN), EndOfData)"
    if "i < length data" "i = length data - 1" "close (data ! i) = zeroOf s" for i s
  proof -
    from that(1) assms(2) obtain month where "isoMonth (timestamp (data ! i)) = Some month"
      by (metis nth_mem not_None_eq)
    with entry_zero_last [OF that(1,2,3)] show ?thesis
      by blast
  qed
  from st idx total zero entry show ?thesis
    by blast
qed

text \<open>
  A previous close of \<open>+0\<close> and one of \<open>-0\<close> before the close 5, and the entry
  price 0 at the last index.
\<close>

theorem no_price_guard_witness:
  "2 \<le> length zeroPrev
 \<and> january (timestamp (zeroPrev ! 0)) = Some ''2024-01''
 \<and> january (timestamp (zeroPrev ! 1)) = Some ''2024-01''
 \<and> close (zeroPrev ! (1 - 1)) = zeroOf False \<and> close (zeroPrev ! 1) = Fin 5
 \<and> jfinite (Fin 5) \<and> isNumber (Fin 5)
 \<and> (\<exists>st. runUpTo january threshold initialBalance zeroPrev 2 = Inr st
        \<and> map fst (history st) = [1])
 \<and> priceChange zeroPrev 1 = PInf
 \<and> isSpike threshold zeroPrev 1
 \<and> jgt (priceChange zeroPrev 1) (Fin 0)
 \<and> 2 \<le> length negZeroPrev
 \<and> january (timestamp (negZeroPrev ! 0)) = Some ''2024-01''
 \<and> january (timestamp (negZeroPrev ! 1)) = Some ''2024-01''
 \<and> close (negZeroPrev ! (1 - 1)) = zeroOf True \<and> close (negZeroPrev ! 1) = Fin 5
 \<and> priceChange negZeroPrev 1 = NInf
 \<and> isSpike threshold negZeroPrev 1
 \<and> \<not> jgt (priceChange negZeroPrev 1) (Fin 0)
 \<and> 2 \<le> length zeroEntry
 \<and> january (timestamp (zeroEntry ! 0)) = Some ''2024-01''
 \<and> january (timestamp (zeroEntry ! 1)) = Some ''2024-01''
 \<and> 1 = length zeroEntry - 1 \<and> close (zeroEntry ! 1) = zeroOf False
 \<and> executeTrade january zeroEntry 1 (priceChange zeroEntry 1) False (Fin 1000) Map.empty =
      Inr (\<lparr>balance = NaN, profit = NaN\<rparr>, [''2024-01'' \<mapsto> NaN], EndOfData)"
proof -
  have thr: "threshold = Fin (5764607523034235 / 576460752303423488)"
    by (simp add: threshold_def number_eval)
  have five: "jfinite (Fin 5) \<and> isNumber (Fin 5)"
    by (simp add: number_eval)
  have h1: "2 \<le> length zeroPrev"
    by (simp add: zeroPrev_def)
  have h2: "\<forall>c \<in> set zeroPrev. january (timestamp c) \<noteq> None"
    by (simp add: zeroPrev_def candle_def at5m_def january_def)
  have h3: "january (timestamp (zeroPrev ! 0)) = Some ''2024-01''"
    "january (timestamp (zeroPrev ! 1)) = Some ''2024-01''"
    by (simp_all add: zeroPrev_def candle_def at5m_def january_def)
  have h4: "1 < length zeroPrev"
    by (simp add: zeroPrev_def)
  have h5: "close (zeroPrev ! (1 - 1)) = zeroOf False"
    by (simp add: zeroPrev_def candle_def zeroOf_def)
  have h7: "close (zeroPrev ! 1) = Fin 5"
    by (simp add: zeroPrev_def candle_def)
  note g = no_price_guard [where isoMonth = january and thr = threshold and b = initialBalance
      and t = "5764607523034235 / 576460752303423488", OF h1 h2]
  have hp: "0 < (1::nat) \<and> 1 < length zeroPrev \<and> close (zeroPrev ! (1 - 1)) = zeroOf False
      \<and> jfinite (close (zeroPrev ! 1)) \<and> isNumber (close (zeroPrev ! 1))"
    using h4 h5 h7 five by simp
  from g [THEN conjunct2, THEN conjunct2, THEN conjunct1] hp
  have "priceChange zeroPrev 1 =
               (if jval (close (zeroPrev ! 1)) = 0 then NaN
                else infOf (jnegative (close (zeroPrev ! 1)) \<noteq> False))
           \<and> (isSpike (Fin (5764607523034235 / 576460752303423488)) zeroPrev 1
                \<longleftrightarrow> jval (close (zeroPrev ! 1)) \<noteq> 0)
           \<and> (jgt (priceChange zeroPrev 1) (Fin 0) \<longleftrightarrow>
                jval (close (zeroPrev ! 1)) \<noteq> 0 \<and> jnegative (close (zeroPrev ! 1)) = False)"
    by blast
  with h7 have sp: "priceChange zeroPrev 1 = PInf \<and> isSpike threshold zeroPrev 1
      \<and> jgt (priceChange zeroPrev 1) (Fin 0)"
    by (simp add: infOf_def thr jgt_def)
  then have "filter (isSpike threshold zeroPrev) [1..<2] = [1]"
    by (simp add: upt_rec)
  with g [THEN conjunct1] have run: "\<exists>st. runUpTo january threshold initialBalance zeroPrev 2 = Inr st
        \<and> map fst (history st) = [1]"
    by simp
  have n1: "2 \<le> length negZeroPrev"
    by (simp add: negZeroPrev_def)
  have n2: "\<forall>c \<in> set negZeroPrev. january (timestamp c) \<noteq> None"
    by (simp add: negZeroPrev_def candle_def at5m_def january_def)
  have n3: "january (timestamp (negZeroPrev ! 0)) = Some ''2024-01''"
    "january (timestamp (negZeroPrev ! 1)) = Some ''2024-01''"
    by (simp_all add: negZeroPrev_def candle_def at5m_def january_def)
  have n4: "1 < length negZeroPrev"
    by (simp add: negZeroPrev_def)
  have n5: "close (negZeroPrev ! (1 - 1)) = zeroOf True"
    by (simp add: negZeroPrev_def candle_def zeroOf_def)
  have n7: "close (negZeroPrev ! 1) = Fin 5"
    by (simp add: negZeroPrev_def candle_def)
  note gn = no_price_guard [where isoMonth = january and thr = threshold and b = initialBalance
      and t = "5764607523034235 / 576460752303423488", OF n1 n2]
  have np: "0 < (1::nat) \<and> 1 < length negZeroPrev \<and> close (negZeroPrev ! (1 - 1)) = zeroOf True
      \<and> jfinite (close (negZeroPrev ! 1)) \<and> isNumber (close (negZeroPrev ! 1))"
    using n4 n5 n7 five by simp
  from gn [THEN conjunct2, THEN conjunct2, THEN conjunct1] np
  have "priceChange negZeroPrev 1 =
               (if jval (close (negZeroPrev ! 1)) = 0 then NaN
                else infOf (jnegative (close (negZeroPrev ! 1)) \<noteq> True))
           \<and> (isSpike (Fin (5764607523034235 / 576460752303423488)) negZeroPrev 1
                \<longleftrightarrow> jval (close (negZeroPrev ! 1)) \<noteq> 0)
           \<and> (jgt (priceChange negZeroPrev 1) (Fin 0) \<longleftrightarrow>
                jval (close (negZeroPrev ! 1)) \<noteq> 0 \<and> jnegative (close (negZeroPrev ! 1)) = True)"
    by blast
  with n7 have sn: "priceChange negZeroPrev 1 = NInf \<and> isSpike threshold negZeroPrev 1
      \<and> \<not> jgt (priceChange negZeroPrev 1) (Fin 0)"
    by (simp add: infOf_def thr jgt_def)
  have e1: "2 \<le> length zeroEntry"
    by (simp add: zeroEntry_def)
  have e2: "\<forall>c \<in> set zeroEntry. january (timestamp c) \<noteq> None"
    by (simp add: zeroEntry_def candle_def at5m_def january_def)
  have e3: "january (timestamp (zeroEntry ! 0)) = Some ''2024-01''"
    "january (timestamp (zeroEntry ! 1)) = Some ''2024-01''"
    by (simp_all add: zeroEntry_def candle_def at5m_def january_def)
  have e4: "1 < length zeroEntry" "1 = length zeroEntry - 1"
    by (simp_all add: zeroEntry_def)
  have e5: "close (zeroEntry ! 1) = zeroOf False"
    by (simp add: zeroEntry_def candle_def zeroOf_def)
  note ge = no_price_guard [where isoMonth = january and thr = threshold and b = initialBalance
      and change = "priceChange zeroEntry 1" and isShort = False and bal = "Fin 1000"
      and mp = Map.empty, OF e1 e2]
  have ep: "1 < length zeroEntry \<and> 1 = length zeroEntry - 1 \<and> close (zeroEntry ! 1) = zeroOf False"
    using e4 e5 by blast
  from ge [THEN conjunct2, THEN conjunct2, THEN conjunct2] ep have "\<exists>month. january (timestamp (zeroEntry ! 1)) = Some month
                \<and> executeTrade january zeroEntry 1 (priceChange zeroEntry 1) False (Fin 1000) Map.empty =
                    Inr (\<lparr>balance = NaN, profit = NaN\<rparr>, Map.empty(month \<mapsto> NaN), EndOfData)"
    by blast
  with e3 have ze: "executeTrade january zeroEntry 1 (priceChange zeroEntry 1) False (Fin 1000) Map.empty =
      Inr (\<lparr>balance = NaN, profit = NaN\<rparr>, [''2024-01'' \<mapsto> NaN], EndOfData)"
    by auto
  from h1 h3 h5 h7 five run sp n1 n3 n5 n7 sn e1 e3 e4 e5 ze show ?thesis
    by blast
qed

text \<open>
  Claim C7 as it was stated fails: with a previous close of zero, and with an entry
  price of zero, the run returns a ledger with a trade made at index 1, and the profit
  of the trade entered at zero is NaN.
\<close>

theorem no_price_guard_counterexample:
  "close (zeroPrev ! 0) = Fin 0
 \<and> \<not> isl (detectPriceSpikes january zeroPrev)
 \<and> map fst (history (projr (detectPriceSpikes january zeroPrev))) = [1]
 \<and> close (zeroEntry ! 1) = Fin 0
 \<and> \<not> isl (detectPriceSpikes january zeroEntry)
 \<and> map fst (history (projr (detectPriceSpikes january zeroEntry))) = [1]
 \<and> recordedProfits (projr (detectPriceSpikes january zeroEntry)) = [NaN]"
proof -
  have "detectPriceSpikes january zeroPrev =
      Inr \<lparr>currentBalance = Fin 1000, totalTrades = 1, winningTrades = 0, losingTrades = 1,
           monthlyProfit = [''2024-01'' \<mapsto> Fin 0],
           history = [(1, True, \<lparr>balance = Fin 1000, profit = NegZero\<rparr>, EndOfData)]\<rparr>"
    by (simp add: zeroPrev_def run_eval number_eval)
  moreover have "detectPriceSpikes january zeroEntry =
      Inr \<lparr>currentBalance = NaN, totalTrades = 1, winningTrades = 0, losingTrades = 1,
           monthlyProfit = [''2024-01'' \<mapsto> NaN],
           history = [(1, False, \<lparr>balance = NaN, profit = NaN\<rparr>, EndOfData)]\<rparr>"
    by (simp add: zeroEntry_def run_eval number_eval)
  moreover have "close (zeroPrev ! 0) = Fin 0" "close (zeroEntry ! 1) = Fin 0"
    by (simp_all add: zeroPrev_def zeroEntry_def candle_def)
  ultimately show ?thesis
    by (simp add: recordedProfits_def)
qed

subsection \<open>The outer scan\<close>

text \<open>
  Claim C8. The loop goes from each index to the next one, whatever the trade made at
  that index did: when \<open>i < n\<close>, the loop at \<open>i\<close> is its body at \<open>i\<close> followed
  by the loop at \<open>i + 1\<close>, and the trades of a run are opened at exactly the indices
  from 1 on at which the change exceeds the threshold, one trade at each. The exits of
  earlier trades play no part, so a trade can be opened while an earlier one is open.
\<close>

theorem scan_advances_by_one:
  assumes "runUpTo isoMonth thr b data n = Inr st"
  shows "map fst (history st) = filter (isSpike thr data) [1..<n]
       \<and> (\<forall>i s. i < n \<longrightarrow>
            spikesLoop isoMonth thr data n i s =
              (case spikeStep isoMonth thr data i s of
                 Inl e \<Rightarrow> Inl e
               | Inr s' \<Rightarrow> spikesLoop isoMonth thr data n (i + 1) s'))"
proof -
  let ?P = "\<lambda>(j::nat) s. 0 < j \<and> map fst (history s) = filter (isSpike thr data) [1..<j]"
  have init: "?P 1 (initialLedger b)"
    by (simp add: initialLedger_def)
  have fin: "?P (max 1 n) st"
    by (rule spikesLoop_invariant [where P = ?P, OF _ init assms [unfolded runUpTo_def]])
       (rule indices_step)
  then have "map fst (history st) = filter (isSpike thr data) [1..<n]"
    by (cases "n = 0") (simp_all add: max_def)
  moreover have "spikesLoop isoMonth thr data n i s =
              (case spikeStep isoMonth thr data i s of
                 Inl e \<Rightarrow> Inl e
               | Inr s' \<Rightarrow> spikesLoop isoMonth thr data n (i + 1) s')" if "i < n" for i s
    using that by (subst spikesLoop.simps) (simp split: sum.split)
  ultimately show ?thesis
    by blast
qed

text \<open>
  On the series with closes 100, 98, 96, 99 the trade opened at index 1 ends at index 3,
  and the next trade is opened at index 2.
\<close>

theorem scan_advances_by_one_witness:
  "\<exists>st. runUpTo january threshold initialBalance overlapping 4 = Inr st
      \<and> map (\<lambda>(i, isShort, r, ev). (i, ev)) (history st)
            = [(1, TakeProfit 3), (2, TakeProfit 3), (3, EndOfData)]
      \<and> filter (isSpike threshold overlapping) [1..<4] = [1, 2, 3]"
proof -
  obtain st where st: "runUpTo january threshold initialBalance overlapping 4 = Inr st"
    and h: "map (\<lambda>(i, isShort, r, ev). (i, ev)) (history st)
            = [(1, TakeProfit 3), (2, TakeProfit 3), (3, EndOfData)]"
    using overlapping_run by simp
  from h have "map fst (map (\<lambda>(i, isShort, r, ev). (i, ev)) (history st)) = [1, 2, 3]"
    by simp
  then have "map fst (history st) = [1, 2, 3]"
    by (simp add: comp_def case_prod_beta)
  with scan_advances_by_one [OF st] st h show ?thesis
    by simp
qed

subsection \<open>The series 100, 98, 102\<close>

lemma scenario1_values:
  "round64 (- 2 / 100) = Fin (- (5764607523034235 / 288230376151711744))"
  "round64 (9898 / 100) = Fin (6965098298705183 / 70368744177664)"
  "round64 (9604 / 100) = Fin (6758214190822851 / 70368744177664)"
  "jdiv (jsub (Fin 98) (Fin 100)) (Fin 100) = Fin (- (5764607523034235 / 288230376151711744))"
  "targetPrice False (Fin 98) (jabs (Fin (- (5764607523034235 / 288230376151711744))))
     = Fin (6965098298705183 / 70368744177664)"
  "stopLossPrice False (Fin 98) (jabs (Fin (- (5764607523034235 / 288230376151711744))))
     = Fin (6758214190822851 / 70368744177664)"
  "jgt (jabs (Fin (- (5764607523034235 / 288230376151711744)))) threshold"
  by (simp_all add: targetPrice_def stopLossPrice_def threshold_def number_eval)

text \<open>
  Claim C9, as amended. On every series with closes 100, 98, 102 and the threshold
  0.01, index 1 is flagged with change -0.02 and the trade is Long, not Short: entry
  price 98, target \<open>98 + (0.02 / 2) * 98 = 98.98\<close> and stop
  \<open>98 - 0.02 * 98 = 96.04\<close>, each the double nearest to the decimal.
\<close>

theorem scenario1_is_long:
  assumes "map close data = [Fin 100, Fin 98, Fin 102]"
  shows "priceChange data 1 = round64 (- 2 / 100)
       \<and> isSpike threshold data 1
       \<and> \<not> jgt (priceChange data 1) (Fin 0)
       \<and> jlt (priceChange data 1) (Fin 0)
       \<and> close (data ! 1) = Fin 98
       \<and> targetPrice False (close (data ! 1)) (jabs (priceChange data 1)) = round64 (9898 / 100)
       \<and> stopLossPrice False (close (data ! 1)) (jabs (priceChange data 1)) = round64 (9604 / 100)
       \<and> spikeStep isoMonth threshold data 1 st =
           (case (case scanTrade isoMonth data False (Fin 98) (round64 (9898 / 100)) (round64 (9604 / 100))
                         (currentBalance st) (monthlyProfit st) 2 of
                    Inl e \<Rightarrow> Inl e
                  | Inr (Some r) \<Rightarrow> Inr r
                  | Inr None \<Rightarrow> closeAtEnd isoMonth data False (Fin 98) (currentBalance st) (monthlyProfit st)) of
              Inl e \<Rightarrow> Inl e
            | Inr (r, mp, ev) \<Rightarrow>
                Inr ((recordOutcome st r)
                       \<lparr>monthlyProfit := mp, history := history st @ [(1, False, r, ev)]\<rparr>))"
proof -
  let ?c = "Fin (- (5764607523034235 / 288230376151711744))"
  from assms have len: "length data = 3"
    by (metis length_map length_Cons list.size(3) numeral_3_eq_3)
  from assms have "map close data ! 0 = Fin 100" "map close data ! 1 = Fin 98"
    by simp_all
  with len have c0: "close (data ! 0) = Fin 100" and c1: "close (data ! 1) = Fin 98"
    by simp_all
  from c0 c1 have ch: "priceChange data 1 = ?c"
    by (simp add: priceChange_def Let_def scenario1_values(4))
  have sp: "isSpike threshold data 1"
    unfolding isSpike_def ch by (rule scenario1_values(7))
  have sg: "\<not> jgt ?c (Fin 0)" "jlt ?c (Fin 0)"
    by (simp_all add: jgt_def)
  have tp: "targetPrice False (Fin 98) (jabs ?c) = round64 (9898 / 100)"
    unfolding scenario1_values(2) by (rule scenario1_values(5))
  have sl: "stopLossPrice False (Fin 98) (jabs ?c) = round64 (9604 / 100)"
    unfolding scenario1_values(3) by (rule scenario1_values(6))
  have ex: "executeTrade isoMonth data 1 ?c False b mp =
      (case scanTrade isoMonth data False (Fin 98) (round64 (9898 / 100)) (round64 (9604 / 100)) b mp 2 of
                    Inl e \<Rightarrow> Inl e
                  | Inr (Some r) \<Rightarrow> Inr r
                  | Inr None \<Rightarrow> closeAtEnd isoMonth data False (Fin 98) b mp)" for b mp
    using len c1 tp sl by (simp add: executeTrade_def Let_def eval_nat_numeral del: jabs.simps)
  have st: "spikeStep isoMonth threshold data 1 st =
           (case executeTrade isoMonth data 1 ?c False (currentBalance st) (monthlyProfit st) of
              Inl e \<Rightarrow> Inl e
            | Inr (r, mp, ev) \<Rightarrow>
                Inr ((recordOutcome st r)
                       \<lparr>monthlyProfit := mp, history := history st @ [(1, False, r, ev)]\<rparr>))"
    using len sp sg(1) ch
    by (simp add: spikeStep_def isSpike_def Let_def split: sum.split del: jabs.simps)
  from ch sp sg c1 tp sl st ex scenario1_values(1) show ?thesis
    by simp
qed

theorem scenario1_is_long_witness:
  "map close series3 = [Fin 100, Fin 98, Fin 102]
 \<and> isSpike threshold series3 1
 \<and> \<not> jgt (priceChange series3 1) (Fin 0)
 \<and> jlt (priceChange series3 1) (Fin 0)
 \<and> targetPrice False (close (series3 ! 1)) (jabs (priceChange series3 1)) = round64 (9898 / 100)
 \<and> stopLossPrice False (close (series3 ! 1)) (jabs (priceChange series3 1)) = round64 (9604 / 100)"
proof -
  have h: "map close series3 = [Fin 100, Fin 98, Fin 102]"
    by (simp add: series3_def candle_def)
  from h scenario1_is_long [OF h, of january "initialLedger initialBalance"] show ?thesis
    by blast
qed

text \<open>
  Claim C9 as it was stated fails: the trade at index 1 is not Short, and its target
  and stop are not 97.02 and 99.96.
\<close>

theorem scenario1_not_short:
  "isSpike threshold series3 1
 \<and> \<not> jgt (priceChange series3 1) (Fin 0)
 \<and> targetPrice (jgt (priceChange series3 1) (Fin 0)) (close (series3 ! 1)) (jabs (priceChange series3 1))
       = round64 (9898 / 100)
 \<and> round64 (9898 / 100) \<noteq> round64 (9702 / 100)
 \<and> stopLossPrice (jgt (priceChange series3 1) (Fin 0)) (close (series3 ! 1)) (jabs (priceChange series3 1))
       = round64 (9604 / 100)
 \<and> round64 (9604 / 100) \<noteq> round64 (9996 / 100)
 \<and> map fst (history (projr (detectPriceSpikes january series3))) = [1, 2]
 \<and> map (fst \<circ> snd) (history (projr (detectPriceSpikes january series3))) = [False, True]"
proof -
  have len: "length series3 = 3"
    by (simp add: series3_def)
  have run: "detectPriceSpikes january series3 = runUpTo january threshold initialBalance series3 3"
    by (simp add: detectPriceSpikes_def run_def len)
  have c: "priceChange series3 1 = Fin (- (5764607523034235 / 288230376151711744))"
    "close (series3 ! 1) = Fin 98"
    by (simp_all add: priceChange_def series3_def candle_def Let_def scenario1_values(4))
  have ne: "round64 (9898 / 100) \<noteq> round64 (9702 / 100)" "round64 (9604 / 100) \<noteq> round64 (9996 / 100)"
    by (simp_all add: number_eval)
  have sg: "jgt (Fin (- (5764607523034235 / 288230376151711744))) (Fin 0) = False"
    by (simp add: jgt_def)
  have sp: "isSpike threshold series3 1"
    unfolding isSpike_def c by (rule scenario1_values(7))
  have h: "map fst (history (projr (detectPriceSpikes january series3))) = [1, 2]
     \<and> map (fst \<circ> snd) (history (projr (detectPriceSpikes january series3))) = [False, True]"
    unfolding run series3_run by simp
  from sp ne h show ?thesis
    unfolding c sg scenario1_values(2,3,5,6) by simp
qed

subsection \<open>The sign of the profit\<close>





end
